theory Spec2Isabelle
  imports Complex_Main
begin

section \<open>Numbers\<close>

text \<open>
  The program computes with JavaScript numbers. They are modelled as real numbers: the
  rounding of the arithmetic on IEEE doubles is not part of the model. The store into the
  \<^verbatim>\<open>Float32Array\<close> that holds the lookup table rounds every entry to single precision;
  this rounding is modelled, by \<open>fround\<close>. The non-finite values are added, as
  \<open>jsnum\<close>, where the source can produce them: the distance of an element starts at
  \<^verbatim>\<open>Infinity\<close> and is divided by \<^verbatim>\<open>maxDist\<close>.
\<close>

definition GRID_SIZE :: real where
  "GRID_SIZE = 12"

definition INITIAL_SPACING :: real where
  "INITIAL_SPACING = 12 / 10"

definition LUT_SIZE :: nat where
  "LUT_SIZE = 256"

definition MAX_ENGINE_CENTERS :: nat where
  "MAX_ENGINE_CENTERS = 3"

section \<open>The curve solver\<close>

text \<open>\<^verbatim>\<open>const clamp01 = (v) => Math.min(1, Math.max(0, v))\<close>\<close>

definition clamp01 :: "real \<Rightarrow> real" where
  "clamp01 v = min 1 (max 0 v)"

text \<open>
  \<^verbatim>\<open>cubicBezierCoord(t, p0, p1, p2, p3)\<close>: the cubic in its coefficient form, as the
  source computes it.
\<close>

definition cubicBezierCoord :: "real \<Rightarrow> real \<Rightarrow> real \<Rightarrow> real \<Rightarrow> real \<Rightarrow> real" where
  "cubicBezierCoord t p0 p1 p2 p3 =
     (let cx = 3 * (p1 - p0);
          bx = 3 * (p2 - p1) - cx;
          ax = p3 - p0 - cx - bx
      in ax * t ^ 3 + bx * t ^ 2 + cx * t + p0)"

text \<open>
  The loop of \<^verbatim>\<open>sampleBezierY\<close>, \<^verbatim>\<open>for (let i = 0; i < 24; i++) { ... }\<close>, from the
  state \<open>(i, low, high, t)\<close>. It returns the final \<open>t\<close> together with the number of
  loop bodies that were run (a \<^verbatim>\<open>break\<close> in the body with counter \<open>i\<close> ends the loop
  after \<open>i + 1\<close> bodies).
\<close>

function bisect :: "nat \<Rightarrow> real \<Rightarrow> real \<Rightarrow> real \<Rightarrow> real \<Rightarrow> real \<Rightarrow> real \<Rightarrow> real \<times> nat" where
  "bisect i low high t targetX p1x p2x =
     (if i < 24 then
        (let mid = (low + high) / 2;
             x = cubicBezierCoord mid 0 p1x p2x 1
         in if \<bar>x - targetX\<bar> < 1 / 10000 then (mid, Suc i)
            else if x < targetX then bisect (Suc i) mid high mid targetX p1x p2x
            else bisect (Suc i) low mid mid targetX p1x p2x)
      else (t, i))"
  by pat_completeness auto
termination
  by (relation "measure (\<lambda>(i, low, high, t, targetX, p1x, p2x). 24 - i)") auto

declare bisect.simps [simp del]

text \<open>The parameter \<open>t\<close> at which \<^verbatim>\<open>sampleBezierY\<close> evaluates the curve.\<close>

definition solveT :: "real \<Rightarrow> real \<Rightarrow> real \<Rightarrow> real" where
  "solveT u p1x p2x = (let targetX = clamp01 u in fst (bisect 0 0 1 targetX targetX p1x p2x))"

definition sampleBezierY ::
  "real \<Rightarrow> real \<Rightarrow> real \<Rightarrow> real \<Rightarrow> real \<Rightarrow> real \<Rightarrow> real \<Rightarrow> real" where
  "sampleBezierY u p1x p1y p2x p2y startY endY =
     cubicBezierCoord (solveT u p1x p2x) startY p1y p2y endY"

section \<open>The lookup table\<close>

text \<open>
  Rounding to the nearest integer, a tie going to the even one.
\<close>

definition round_even :: "real \<Rightarrow> int" where
  "round_even y =
     (let f = \<lfloor>y\<rfloor>; d = y - of_int f
      in if d < 1 / 2 then f else if 1 / 2 < d then f + 1 else if even f then f else f + 1)"

text \<open>
  The store \<^verbatim>\<open>lut[i] = v\<close> into a \<^verbatim>\<open>Float32Array\<close> keeps the single-precision
  number nearest to \<open>v\<close>, a tie going to the even significand. A single-precision number
  with the exponent \<open>e\<close> is a multiple of \<open>2 ^ (e - 23)\<close>; the exponent of \<open>v\<close> is
  \<open>\<lfloor>log 2 \<bar>v\<bar>\<rfloor>\<close>, and not less than \<open>- 126\<close> (below that the numbers are
  subnormal, multiples of \<open>2 ^ (- 149)\<close>). The exponent is not bounded above here: a value
  of \<open>2 ^ 128\<close> or more, which the store turns into an infinity, is rounded like the
  others, as the model has no infinities of double arithmetic either.
\<close>

definition fexp :: "real \<Rightarrow> int" where
  "fexp x = max \<lfloor>log 2 \<bar>x\<bar>\<rfloor> (- 126)"

definition fround :: "real \<Rightarrow> real" where
  "fround x =
     (if x = 0 then 0
      else (let ulp = power_int 2 (fexp x - 23)
            in of_int (round_even (x / ulp)) * ulp))"

text \<open>
  \<^verbatim>\<open>generateScaleLUT(p1x, p1y, p2x, p2y, startY, endY, minScale, maxScale)\<close> of the
  variant with free anchors: entry \<open>i\<close> is the curve at \<open>i / (LUT_SIZE - 1)\<close>, mapped
  affinely to the scale bounds and stored into the \<^verbatim>\<open>Float32Array\<close>.
\<close>

definition generateScaleLUT_free ::
  "real \<Rightarrow> real \<Rightarrow> real \<Rightarrow> real \<Rightarrow> real \<Rightarrow> real \<Rightarrow> real \<Rightarrow> real \<Rightarrow> real list" where
  "generateScaleLUT_free p1x p1y p2x p2y startY endY minScale maxScale =
     map (\<lambda>i. let t = real i / real (LUT_SIZE - 1);
                   normalizedVal = sampleBezierY t p1x p1y p2x p2y startY endY
               in fround (minScale + normalizedVal * (maxScale - minScale)))
         [0..<LUT_SIZE]"

text \<open>
  \<^verbatim>\<open>generateScaleLUT(p1x, p1y, p2x, p2y, isReversed, minScale, maxScale)\<close> of
  \<^verbatim>\<open>App.tsx\<close>: the anchors are chosen by the flag.
\<close>

definition generateScaleLUT ::
  "real \<Rightarrow> real \<Rightarrow> real \<Rightarrow> real \<Rightarrow> bool \<Rightarrow> real \<Rightarrow> real \<Rightarrow> real list" where
  "generateScaleLUT p1x p1y p2x p2y isReversed minScale maxScale =
     (let startY = (if isReversed then 0 else 1);
          endY = (if isReversed then 1 else 0)
      in map (\<lambda>i. let t = real i / real (LUT_SIZE - 1);
                       normalizedVal = sampleBezierY t p1x p1y p2x p2y startY endY
                   in fround (minScale + normalizedVal * (maxScale - minScale)))
             [0..<LUT_SIZE])"

section \<open>The distance field\<close>

datatype jsnum = Num real | PosInf | NegInf | NaN

type_synonym vec3 = "real \<times> real \<times> real"

text \<open>\<^verbatim>\<open>THREE.Vector3.distanceTo\<close>: the Euclidean distance.\<close>

fun distanceTo :: "vec3 \<Rightarrow> vec3 \<Rightarrow> real" where
  "distanceTo (ax, ay, az) (bx, by, bz) = sqrt ((ax - bx) ^ 2 + (ay - by) ^ 2 + (az - bz) ^ 2)"

text \<open>
  \<^verbatim>\<open>interface SceneConfig\<close> of the variant with two tints; \<open>tintColor\<close> is the near
  tint and \<open>tintColor2\<close> the far one. The table is a list, so that a read outside of it
  can be written out.
\<close>

record SceneConfig =
  maxDist :: real
  opacity :: real
  lut :: "real list"
  minScale :: real
  maxScale :: real
  tintColor :: vec3
  tintColor2 :: vec3

text \<open>\<^verbatim>\<open>weightRef.current?.[c] ?? 1\<close>: a missing weight counts as 1.\<close>

definition weight_at :: "real list \<Rightarrow> nat \<Rightarrow> real" where
  "weight_at weights c = (if c < length weights then weights ! c else 1)"

text \<open>\<^verbatim>\<open>d < dist\<close> for a finite \<open>d\<close> (the variable \<^verbatim>\<open>dist\<close> is written \<open>dst\<close>).\<close>

fun js_less :: "real \<Rightarrow> jsnum \<Rightarrow> bool" where
  "js_less d (Num r) = (d < r)"
| "js_less d PosInf = True"
| "js_less d NegInf = False"
| "js_less d NaN = False"

text \<open>
  The body of the loop over the centers: a center whose weight is below 0.001 is skipped,
  the others compete with their distance divided by their weight.
\<close>

definition center_step :: "vec3 \<Rightarrow> vec3 list \<Rightarrow> real list \<Rightarrow> nat \<Rightarrow> jsnum \<Rightarrow> jsnum" where
  "center_step pos focalPoints weights c dst =
     (let w = weight_at weights c
      in if w < 1 / 1000 then dst
         else (let d = distanceTo pos (focalPoints ! c) / w
               in if js_less d dst then Num d else dst))"

text \<open>
  \<^verbatim>\<open>let dist = Infinity; for (let c = 0; c < Math.min(length, MAX_ENGINE_CENTERS); c++) ...\<close>
\<close>

definition nearest_dist :: "vec3 \<Rightarrow> vec3 list \<Rightarrow> real list \<Rightarrow> jsnum" where
  "nearest_dist pos focalPoints weights =
     fold (center_step pos focalPoints weights)
          [0..<min (length focalPoints) MAX_ENGINE_CENTERS] PosInf"

text \<open>
  \<^verbatim>\<open>dist / maxDist\<close> with a finite divisor. Signed zeros are not modelled: a zero
  divisor is \<open>+0\<close>.
\<close>

fun js_div :: "jsnum \<Rightarrow> real \<Rightarrow> jsnum" where
  "js_div (Num a) b =
     (if b \<noteq> 0 then Num (a / b) else if a = 0 then NaN else if 0 < a then PosInf else NegInf)"
| "js_div PosInf b = (if 0 \<le> b then PosInf else NegInf)"
| "js_div NegInf b = (if 0 \<le> b then NegInf else PosInf)"
| "js_div NaN b = NaN"

text \<open>\<^verbatim>\<open>Math.min(1, x)\<close>\<close>

fun js_min1 :: "jsnum \<Rightarrow> jsnum" where
  "js_min1 (Num a) = Num (min 1 a)"
| "js_min1 PosInf = Num 1"
| "js_min1 NegInf = NegInf"
| "js_min1 NaN = NaN"

text \<open>\<^verbatim>\<open>x * k\<close> for a finite \<open>k\<close>\<close>

fun js_times :: "jsnum \<Rightarrow> real \<Rightarrow> jsnum" where
  "js_times (Num a) k = Num (a * k)"
| "js_times PosInf k = (if k = 0 then NaN else if 0 < k then PosInf else NegInf)"
| "js_times NegInf k = (if k = 0 then NaN else if 0 < k then NegInf else PosInf)"
| "js_times NaN k = NaN"

text \<open>\<^verbatim>\<open>Math.floor(x)\<close>\<close>

fun js_floor :: "jsnum \<Rightarrow> jsnum" where
  "js_floor (Num a) = Num (of_int \<lfloor>a\<rfloor>)"
| "js_floor PosInf = PosInf"
| "js_floor NegInf = NegInf"
| "js_floor NaN = NaN"

text \<open>
  \<^verbatim>\<open>lut[idx]\<close>: the entry when \<open>idx\<close> is an index of the table, \<^verbatim>\<open>undefined\<close>
  (here \<open>None\<close>) otherwise. The entries of the table are finite numbers.
\<close>

fun lut_read :: "real list \<Rightarrow> jsnum \<Rightarrow> real option" where
  "lut_read l (Num r) =
     (if r = of_int \<lfloor>r\<rfloor> \<and> 0 \<le> r \<and> r < real (length l) then Some (l ! nat \<lfloor>r\<rfloor>) else None)"
| "lut_read l PosInf = None"
| "lut_read l NegInf = None"
| "lut_read l NaN = None"

text \<open>\<^verbatim>\<open>v || d\<close>: \<^verbatim>\<open>undefined\<close> and 0 are falsy.\<close>

fun js_or :: "real option \<Rightarrow> real \<Rightarrow> real" where
  "js_or None d = d"
| "js_or (Some v) d = (if v = 0 then d else v)"

text \<open>
  One component of \<^verbatim>\<open>THREE.Color.lerp(color, alpha)\<close>, which is
  \<^verbatim>\<open>this.r += (color.r - this.r) * alpha\<close>.
\<close>

fun js_lerp :: "real \<Rightarrow> real \<Rightarrow> jsnum \<Rightarrow> jsnum" where
  "js_lerp a b (Num r) = Num (a + (b - a) * r)"
| "js_lerp a b PosInf = (if b - a = 0 then NaN else if 0 < b - a then PosInf else NegInf)"
| "js_lerp a b NegInf = (if b - a = 0 then NaN else if 0 < b - a then NegInf else PosInf)"
| "js_lerp a b NaN = NaN"

text \<open>\<^verbatim>\<open>tempColor.copy(tintColor).lerp(tintColor2, t)\<close>\<close>

fun color_lerp :: "vec3 \<Rightarrow> vec3 \<Rightarrow> jsnum \<Rightarrow> jsnum \<times> jsnum \<times> jsnum" where
  "color_lerp (r1, g1, b1) (r2, g2, b2) t = (js_lerp r1 r2 t, js_lerp g1 g2 t, js_lerp b1 b2 t)"

text \<open>
  The weighted distances of the centers that take part, in the order of the centers: the
  first \<open>MAX_ENGINE_CENTERS\<close> focal points whose weight is at least 0.001. This list is
  what the distance of an element is compared with; the source does not build it.
\<close>

definition qualifying :: "vec3 \<Rightarrow> vec3 list \<Rightarrow> real list \<Rightarrow> real list" where
  "qualifying pos focalPoints weights =
     map (\<lambda>c. distanceTo pos (focalPoints ! c) / weight_at weights c)
         (filter (\<lambda>c. 1 / 1000 \<le> weight_at weights c)
                 [0..<min (length focalPoints) MAX_ENGINE_CENTERS])"

text \<open>A colour whose components are finite.\<close>

fun num3 :: "vec3 \<Rightarrow> jsnum \<times> jsnum \<times> jsnum" where
  "num3 (r, g, b) = (Num r, Num g, Num b)"

text \<open>
  The body of the loop over the grid elements in the frame callback of
  \<^verbatim>\<open>InstancedSpheres\<close>, one definition for each value it computes.
\<close>

definition sphere_t :: "SceneConfig \<Rightarrow> vec3 list \<Rightarrow> real list \<Rightarrow> vec3 \<Rightarrow> jsnum" where
  "sphere_t config focalPoints weights pos =
     js_min1 (js_div (nearest_dist pos focalPoints weights) (maxDist config))"

definition sphere_idx :: "SceneConfig \<Rightarrow> vec3 list \<Rightarrow> real list \<Rightarrow> vec3 \<Rightarrow> jsnum" where
  "sphere_idx config focalPoints weights pos =
     js_floor (js_times (sphere_t config focalPoints weights pos) (real (LUT_SIZE - 1)))"

definition finalScale :: "SceneConfig \<Rightarrow> vec3 list \<Rightarrow> real list \<Rightarrow> vec3 \<Rightarrow> real" where
  "finalScale config focalPoints weights pos =
     js_or (lut_read (lut config) (sphere_idx config focalPoints weights pos)) (minScale config)"

definition sphere_color ::
  "SceneConfig \<Rightarrow> vec3 list \<Rightarrow> real list \<Rightarrow> vec3 \<Rightarrow> jsnum \<times> jsnum \<times> jsnum" where
  "sphere_color config focalPoints weights pos =
     color_lerp (tintColor config) (tintColor2 config) (sphere_t config focalPoints weights pos)"

text \<open>
  The frame callback, once the mesh is mounted: nothing is written when there is no focal
  point, otherwise every grid element gets its scale and its colour.
\<close>

definition InstancedSpheres_useFrame ::
  "SceneConfig \<Rightarrow> vec3 list \<Rightarrow> real list \<Rightarrow> vec3 list \<Rightarrow>
   (real \<times> jsnum \<times> jsnum \<times> jsnum) list option" where
  "InstancedSpheres_useFrame config focalPoints weights positions =
     (if focalPoints = [] then None
      else Some (map (\<lambda>pos. (finalScale config focalPoints weights pos,
                              sphere_color config focalPoints weights pos)) positions))"

text \<open>
  \<^verbatim>\<open>maxDist\<close> as \<^verbatim>\<open>App\<close> computes it, once: the half diagonal of the grid's box
  with a margin of ten percent.
\<close>

definition App_maxDist :: real where
  "App_maxDist = sqrt (3 * ((GRID_SIZE * INITIAL_SPACING) / 2) ^ 2) * (11 / 10)"

section \<open>The variants with one focal point\<close>

text \<open>
  Two other variants of the application move a single focal point and draw one mesh for
  each element (the component \<^verbatim>\<open>Sphere\<close>). Their frame callbacks compute \<open>t\<close> from the
  distance to that point. The variant whose configuration has no scale bounds falls back
  to the constant 0.1, \<^verbatim>\<open>lut[idx] || 0.1\<close>; the variant with one tint applies the tint with
  the constant factor 1, \<^verbatim>\<open>color.copy(BASE_WHITE).lerp(tintColor, curveFactor)\<close>.
\<close>

definition Sphere_t :: "real \<Rightarrow> vec3 \<Rightarrow> vec3 \<Rightarrow> jsnum" where
  "Sphere_t maxD focalPoint spherePos =
     js_min1 (js_div (Num (distanceTo spherePos focalPoint)) maxD)"

definition Sphere_finalScale_const :: "real \<Rightarrow> real list \<Rightarrow> vec3 \<Rightarrow> vec3 \<Rightarrow> real" where
  "Sphere_finalScale_const maxD l focalPoint spherePos =
     js_or (lut_read l (js_floor (js_times (Sphere_t maxD focalPoint spherePos)
                                           (real (LUT_SIZE - 1)))))
           (1 / 10)"

definition Sphere_color :: "vec3 \<Rightarrow> jsnum \<times> jsnum \<times> jsnum" where
  "Sphere_color tint = (let curveFactor = 1 in color_lerp (1, 1, 1) tint (Num curveFactor))"

section \<open>The focal centers\<close>

text \<open>\<^verbatim>\<open>THREE.MathUtils.lerp(x, y, t)\<close>, which is \<^verbatim>\<open>(1 - t) * x + t * y\<close>.\<close>

definition lerp :: "real \<Rightarrow> real \<Rightarrow> real \<Rightarrow> real" where
  "lerp x y t = (1 - t) * x + t * y"

text \<open>
  The jitter of a center, drawn once when the center is created: each phase is
  \<^verbatim>\<open>Math.random() * Math.PI * 2\<close>, each component of \<open>amp\<close> is
  \<^verbatim>\<open>0.6 + Math.random() * 0.8\<close> and each component of \<open>freq\<close> is
  \<^verbatim>\<open>1 + Math.random() * 0.3\<close>. The random draws are not modelled; a phase record is any
  value the draws can give.
\<close>

record Phase =
  px :: real
  py :: real
  pz :: real
  amp :: vec3
  freq :: vec3

datatype error = TypeError

text \<open>
  The position of center \<open>i\<close> at time \<open>t\<close>, as the frame callback of
  \<^verbatim>\<open>SceneContent\<close> computes it (the constant \<^verbatim>\<open>freq = 0.2\<close> of the source is
  written \<open>f\<close>).
\<close>

definition center_position :: "nat \<Rightarrow> Phase \<Rightarrow> real \<Rightarrow> real \<Rightarrow> real \<Rightarrow> vec3" where
  "center_position i phase t bound randNorm =
     (let f = 2 / 10;
          freqJitterX = (1 + real i * (1 / 10)) * lerp 1 (fst (freq phase)) randNorm;
          freqJitterY = (135 / 100 + real i * (1 / 10)) * lerp 1 (fst (snd (freq phase))) randNorm;
          freqJitterZ = (8 / 10 + real i * (8 / 100)) * lerp 1 (snd (snd (freq phase))) randNorm;
          ampJitterX = lerp 1 (fst (amp phase)) randNorm;
          ampJitterY = lerp 1 (fst (snd (amp phase))) randNorm;
          ampJitterZ = lerp 1 (snd (snd (amp phase))) randNorm;
          x = sin (t * f * freqJitterX + px phase) * bound * ampJitterX;
          y = sin (t * f * freqJitterY + py phase) * bound * (85 / 100) * ampJitterY;
          z = cos (t * f * freqJitterZ + pz phase) * bound * ampJitterZ
      in (x, y, z))"

text \<open>
  \<^verbatim>\<open>weightRef.current[i] = lerp(current, target, 1 - Math.exp(-delta * 6))\<close> for one
  weight, and the loop over all of them; a missing target counts as 0.
\<close>

definition smooth_weight :: "real \<Rightarrow> real \<Rightarrow> real \<Rightarrow> real" where
  "smooth_weight delta current target = lerp current target (1 - exp (- delta * 6))"

definition target_at :: "real list \<Rightarrow> nat \<Rightarrow> real" where
  "target_at targets i = (if i < length targets then targets ! i else 0)"

definition smooth_weights :: "real \<Rightarrow> real list \<Rightarrow> real list \<Rightarrow> real list" where
  "smooth_weights delta targets weights =
     map (\<lambda>i. smooth_weight delta (weights ! i) (target_at targets i)) [0..<length weights]"

text \<open>
  The targets as the effect of \<^verbatim>\<open>SceneContent\<close> sets them:
  \<^verbatim>\<open>weightTargetRef.current[i] = i < engineCenters ? 1 : 0\<close>.
\<close>

definition weight_targets :: "nat \<Rightarrow> real list" where
  "weight_targets engineCenters =
     map (\<lambda>i. if i < engineCenters then 1 else 0) [0..<MAX_ENGINE_CENTERS]"

text \<open>
  The state that the frame callback of \<^verbatim>\<open>SceneContent\<close> mutates, and the properties
  it reads.
\<close>

record AnimatorState =
  timeRef :: real
  weightRef :: "real list"
  weightTargetRef :: "real list"
  smoothRandomnessRef :: real
  focalPointsRef :: "vec3 list"
  phaseRef :: "Phase list"

record SceneProps =
  isDynamic :: bool
  speed :: real
  engineCenters :: nat
  engineRandomness :: real
  boundScale :: real

text \<open>
  \<^verbatim>\<open>focalPointsRef.current[i].set(x, y, z)\<close>, after a vector was created at \<open>i\<close> when
  there was none. The loop visits the indices in order, so a missing index is the length
  of the list.
\<close>

definition put_center :: "vec3 list \<Rightarrow> nat \<Rightarrow> vec3 \<Rightarrow> vec3 list" where
  "put_center points i p = (if i < length points then points[i := p] else points @ [p])"

text \<open>
  The loop over the active centers. Reading a field of a missing phase raises a
  \<^verbatim>\<open>TypeError\<close>.
\<close>

fun move_centers ::
  "nat list \<Rightarrow> Phase list \<Rightarrow> real \<Rightarrow> real \<Rightarrow> real \<Rightarrow> vec3 list \<Rightarrow> error + vec3 list" where
  "move_centers [] phases t bound randNorm points = Inr points"
| "move_centers (i # rest) phases t bound randNorm points =
     (if i < length phases
      then move_centers rest phases t bound randNorm
             (put_center points i (center_position i (phases ! i) t bound randNorm))
      else Inl TypeError)"

text \<open>
  The frame callback of \<^verbatim>\<open>SceneContent\<close>, for a frame that lasted \<open>delta\<close>. When the
  loop over the centers raises, the frame ends with the error; what it had written before
  is not kept in the model.
\<close>

definition SceneContent_useFrame ::
  "SceneProps \<Rightarrow> real \<Rightarrow> AnimatorState \<Rightarrow> error + AnimatorState" where
  "SceneContent_useFrame props delta s =
     (if \<not> isDynamic props then Inr s
      else
        (let time' = timeRef s + delta * speed props;
             weights' = smooth_weights delta (weightTargetRef s) (weightRef s);
             smooth' = lerp (smoothRandomnessRef s) (engineRandomness props)
                            (1 - exp (- delta * 3));
             baseBound = (GRID_SIZE * INITIAL_SPACING) / 2;
             bound = baseBound * boundScale props;
             randNorm = smooth' / 100;
             centerCount = min (engineCenters props) MAX_ENGINE_CENTERS
         in case move_centers [0..<centerCount] (phaseRef s) time' bound randNorm
                   (focalPointsRef s) of
              Inl e \<Rightarrow> Inl e
            | Inr points' \<Rightarrow>
                Inr (s\<lparr>timeRef := time', weightRef := weights',
                       smoothRandomnessRef := smooth', focalPointsRef := points'\<rparr>)))"

text \<open>A run of frames, each with its own length and its own targets for the weights.\<close>

fun run_weights :: "(real \<times> real list) list \<Rightarrow> real list \<Rightarrow> real list" where
  "run_weights [] weights = weights"
| "run_weights ((delta, targets) # ticks) weights =
     run_weights ticks (smooth_weights delta targets weights)"

section \<open>Properties of the curve solver\<close>

lemma bisect_iterations: "i \<le> 24 \<Longrightarrow> snd (bisect i low high t targetX p1x p2x) \<le> 24"
proof (induction i low high t targetX p1x p2x rule: bisect.induct)
  case (1 i low high t targetX p1x p2x)
  show ?case
  proof (cases "i < 24")
    case True
    with "1.IH" show ?thesis
      by (subst bisect.simps) (simp add: Let_def)
  next
    case False
    with "1.prems" show ?thesis
      by (subst bisect.simps) simp
  qed
qed

lemma bisect_progress: "i \<le> snd (bisect i low high t targetX p1x p2x)"
proof (induction i low high t targetX p1x p2x rule: bisect.induct)
  case (1 i low high t targetX p1x p2x)
  show ?case
  proof (cases "i < 24")
    case True
    have a: "i \<le> snd (bisect (Suc i) mid high mid targetX p1x p2x)"
      if "\<not> \<bar>cubicBezierCoord mid 0 p1x p2x 1 - targetX\<bar> < 1 / 10000"
         "cubicBezierCoord mid 0 p1x p2x 1 < targetX" "mid = (low + high) / 2" for mid
      using "1.IH"(1) [OF True that(3) refl that(1) that(2)] by simp
    have b: "i \<le> snd (bisect (Suc i) low mid mid targetX p1x p2x)"
      if "\<not> \<bar>cubicBezierCoord mid 0 p1x p2x 1 - targetX\<bar> < 1 / 10000"
         "\<not> cubicBezierCoord mid 0 p1x p2x 1 < targetX" "mid = (low + high) / 2" for mid
      using "1.IH"(2) [OF True that(3) refl that(1) that(2)] by simp
    from True a b show ?thesis
      by (subst bisect.simps) (simp add: Let_def)
  next
    case False
    then show ?thesis
      by (subst bisect.simps) simp
  qed
qed

text \<open>
  The loop keeps \<open>t\<close> between \<open>low\<close> and \<open>high\<close>, whatever the curve is.
\<close>

lemma bisect_range:
  "low \<le> t \<Longrightarrow> t \<le> high \<Longrightarrow>
     low \<le> fst (bisect i low high t targetX p1x p2x) \<and>
     fst (bisect i low high t targetX p1x p2x) \<le> high"
proof (induction i low high t targetX p1x p2x rule: bisect.induct)
  case (1 i low high t targetX p1x p2x)
  define mid where "mid = (low + high) / 2"
  define x where "x = cubicBezierCoord mid 0 p1x p2x 1"
  from "1.prems" have lh: "low \<le> mid" "mid \<le> high"
    by (simp_all add: mid_def)
  show ?case
  proof (cases "i < 24")
    case True
    note lt = True
    show ?thesis
    proof (cases "\<bar>x - targetX\<bar> < 1 / 10000")
      case True
      with lt lh show ?thesis
        by (subst (1 2) bisect.simps) (simp add: Let_def mid_def x_def)
    next
      case nb: False
      show ?thesis
      proof (cases "x < targetX")
        case True
        from "1.IH"(1) [OF lt mid_def x_def nb True] lh
        have "mid \<le> fst (bisect (Suc i) mid high mid targetX p1x p2x) \<and>
              fst (bisect (Suc i) mid high mid targetX p1x p2x) \<le> high"
          by simp
        with lt nb True lh show ?thesis
          by (subst (1 2) bisect.simps) (simp add: Let_def mid_def [symmetric] x_def [symmetric])
      next
        case False
        from "1.IH"(2) [OF lt mid_def x_def nb False] lh
        have "low \<le> fst (bisect (Suc i) low mid mid targetX p1x p2x) \<and>
              fst (bisect (Suc i) low mid mid targetX p1x p2x) \<le> mid"
          by simp
        with lt nb False lh show ?thesis
          by (subst (1 2) bisect.simps) (simp add: Let_def mid_def [symmetric] x_def [symmetric])
      qed
    qed
  next
    case False
    with "1.prems" show ?thesis
      by (subst (1 2) bisect.simps) simp
  qed
qed

lemma clamp01_range: "0 \<le> clamp01 v \<and> clamp01 v \<le> 1"
  by (simp add: clamp01_def)

lemma solveT_range: "0 \<le> solveT u p1x p2x \<and> solveT u p1x p2x \<le> 1"
  using bisect_range [of 0 "clamp01 u" 1 0 "clamp01 u" p1x p2x] clamp01_range [of u]
  by (simp add: solveT_def Let_def)

text \<open>The coefficient form of the source is the Bernstein form of the cubic.\<close>

lemma cubicBezierCoord_bernstein:
  "cubicBezierCoord t p0 p1 p2 p3 =
     (1 - t) ^ 3 * p0 + 3 * (1 - t) ^ 2 * t * p1 + 3 * (1 - t) * t ^ 2 * p2 + t ^ 3 * p3"
  by (simp add: cubicBezierCoord_def Let_def power2_eq_square power3_eq_cube algebra_simps)

lemma bernstein_sum: "(1 - t) ^ 3 + 3 * (1 - t) ^ 2 * t + 3 * (1 - t) * t ^ 2 + t ^ 3 = (1::real)"
  by (simp add: power2_eq_square power3_eq_cube algebra_simps)

lemma bernstein_nonneg:
  assumes "0 \<le> t" "t \<le> (1::real)"
  shows "0 \<le> (1 - t) ^ 3" "0 \<le> 3 * (1 - t) ^ 2 * t" "0 \<le> 3 * (1 - t) * t ^ 2" "0 \<le> t ^ 3"
  using assms by simp_all

lemma convex4:
  fixes a b c d :: real
  assumes "0 \<le> a" "0 \<le> b" "0 \<le> c" "0 \<le> d" "a + b + c + d = 1"
    and "lo \<le> p0" "lo \<le> p1" "lo \<le> p2" "lo \<le> p3"
    and "p0 \<le> hi" "p1 \<le> hi" "p2 \<le> hi" "p3 \<le> hi"
  shows "lo \<le> a * p0 + b * p1 + c * p2 + d * p3 \<and> a * p0 + b * p1 + c * p2 + d * p3 \<le> hi"
proof -
  have "a * lo + b * lo + c * lo + d * lo \<le> a * p0 + b * p1 + c * p2 + d * p3"
    using assms by (intro add_mono mult_left_mono) simp_all
  moreover have "a * lo + b * lo + c * lo + d * lo = (a + b + c + d) * lo"
    by (simp add: algebra_simps)
  moreover have "a * p0 + b * p1 + c * p2 + d * p3 \<le> a * hi + b * hi + c * hi + d * hi"
    using assms by (intro add_mono mult_left_mono) simp_all
  moreover have "a * hi + b * hi + c * hi + d * hi = (a + b + c + d) * hi"
    by (simp add: algebra_simps)
  ultimately show ?thesis using assms(5) by simp
qed

lemma cubicBezierCoord_convex:
  assumes "0 \<le> t" "t \<le> 1"
    and "lo \<le> p0" "lo \<le> p1" "lo \<le> p2" "lo \<le> p3"
    and "p0 \<le> hi" "p1 \<le> hi" "p2 \<le> hi" "p3 \<le> hi"
  shows "lo \<le> cubicBezierCoord t p0 p1 p2 p3 \<and> cubicBezierCoord t p0 p1 p2 p3 \<le> hi"
  unfolding cubicBezierCoord_bernstein
  using convex4 [OF bernstein_nonneg [OF assms(1,2)] bernstein_sum [of t] assms(3-10)]
  by (simp add: mult.commute)

lemma sampleBezierY_range:
  assumes "lo \<le> startY" "lo \<le> p1y" "lo \<le> p2y" "lo \<le> endY"
    and "startY \<le> hi" "p1y \<le> hi" "p2y \<le> hi" "endY \<le> hi"
  shows "lo \<le> sampleBezierY u p1x p1y p2x p2y startY endY \<and>
         sampleBezierY u p1x p1y p2x p2y startY endY \<le> hi"
  unfolding sampleBezierY_def
  using cubicBezierCoord_convex [of "solveT u p1x p2x" lo startY p1y p2y endY hi]
    solveT_range [of u p1x p2x] assms by simp

section \<open>Rounding to single precision\<close>

lemma round_even_bounds: "\<lfloor>y\<rfloor> \<le> round_even y \<and> round_even y \<le> \<lfloor>y\<rfloor> + 1"
  by (simp add: round_even_def Let_def)

lemma round_even_of_int [simp]: "round_even (of_int n) = n"
  by (simp add: round_even_def)

lemma round_even_mono: "y \<le> z \<Longrightarrow> round_even y \<le> round_even z"
proof -
  assume yz: "y \<le> z"
  then have f: "\<lfloor>y\<rfloor> \<le> \<lfloor>z\<rfloor>"
    by (rule floor_mono)
  show ?thesis
  proof (cases "\<lfloor>y\<rfloor> = \<lfloor>z\<rfloor>")
    case True
    with yz have "y - of_int \<lfloor>y\<rfloor> \<le> z - of_int \<lfloor>z\<rfloor>"
      by simp
    with True show ?thesis
      by (auto simp: round_even_def Let_def)
  next
    case False
    with f have "\<lfloor>y\<rfloor> + 1 \<le> \<lfloor>z\<rfloor>"
      by simp
    with round_even_bounds [of y] round_even_bounds [of z] show ?thesis
      by linarith
  qed
qed

lemma round_even_uminus: "round_even (- y) = - round_even y"
proof (cases "y = of_int \<lfloor>y\<rfloor>")
  case True
  then obtain n where "y = of_int n" ..
  then have "- y = of_int (- n)" by simp
  with \<open>y = of_int n\<close> show ?thesis
    by (simp only: round_even_of_int)
next
  case False
  with of_int_floor_le [of y] have lt: "of_int \<lfloor>y\<rfloor> < y"
    by linarith
  have e: "real_of_int (- \<lfloor>y\<rfloor> - 1) = - real_of_int \<lfloor>y\<rfloor> - 1"
    by simp
  have "y \<le> of_int \<lfloor>y\<rfloor> + 1"
    by linarith
  then have "of_int (- \<lfloor>y\<rfloor> - 1) \<le> - y"
    unfolding e by linarith
  moreover from lt have "- y < of_int (- \<lfloor>y\<rfloor> - 1) + 1"
    unfolding e by linarith
  ultimately have fl: "\<lfloor>- y\<rfloor> = - \<lfloor>y\<rfloor> - 1"
    by (rule floor_unique)
  define d where "d = y - of_int \<lfloor>y\<rfloor>"
  have d': "- y - real_of_int (- \<lfloor>y\<rfloor> - 1) = 1 - d"
    by (simp add: d_def)
  have a: "round_even y =
      (if d < 1 / 2 then \<lfloor>y\<rfloor> else if 1 / 2 < d then \<lfloor>y\<rfloor> + 1
       else if even \<lfloor>y\<rfloor> then \<lfloor>y\<rfloor> else \<lfloor>y\<rfloor> + 1)"
    by (simp only: round_even_def Let_def d_def)
  have b: "round_even (- y) =
      (if 1 - d < 1 / 2 then - \<lfloor>y\<rfloor> - 1 else if 1 / 2 < 1 - d then - \<lfloor>y\<rfloor> - 1 + 1
       else if even (- \<lfloor>y\<rfloor> - 1) then - \<lfloor>y\<rfloor> - 1 else - \<lfloor>y\<rfloor> - 1 + 1)"
    by (simp only: round_even_def Let_def fl d')
  consider "d < 1 / 2" | "1 / 2 < d" | "d = 1 / 2"
    by linarith
  then show ?thesis
    by cases (simp_all add: a b)
qed

lemma powr2_int: "2 powr real_of_int k = power_int (2::real) k"
  by (simp add: powr_real_of_int')

lemma powr2_int_Suc: "2 powr (real_of_int k + 1) = power_int (2::real) (k + 1)"
  using powr2_int [of "k + 1"] by simp

lemma floor_log2_bounds:
  assumes "0 < (x::real)"
  shows "power_int 2 \<lfloor>log 2 x\<rfloor> \<le> x \<and> x < power_int 2 (\<lfloor>log 2 x\<rfloor> + 1)"
  using floor_log_eq_powr_iff [of x 2 "\<lfloor>log 2 x\<rfloor>"] assms
  by (simp add: powr2_int powr2_int_Suc)

lemma floor_log2_unique:
  assumes "0 < (x::real)" "power_int 2 k \<le> x" "x < power_int 2 (k + 1)"
  shows "\<lfloor>log 2 x\<rfloor> = k"
  using floor_log_eq_powr_iff [of x 2 k] assms
  by (simp add: powr2_int powr2_int_Suc)


lemma ulp_pos: "0 < power_int (2::real) k"
  by simp

lemma round_even_ge:
  assumes "0 < u" "of_int n * u \<le> x"
  shows "n \<le> round_even (x / u)"
proof -
  from assms have "of_int n \<le> x / u"
    by (simp add: pos_le_divide_eq)
  from round_even_mono [OF this] show ?thesis
    by simp
qed

lemma round_even_le:
  assumes "0 < u" "x \<le> of_int n * u"
  shows "round_even (x / u) \<le> n"
proof -
  from assms have "x / u \<le> of_int n"
    by (simp add: pos_divide_le_eq)
  from round_even_mono [OF this] show ?thesis
    by simp
qed

lemma binade_top: "power_int (2::real) (k + 1) = of_int (2 ^ 24) * power_int 2 (k - 23)"
proof -
  have e: "k + 1 = 24 + (k - 23)"
    by simp
  have "power_int (2::real) (k + 1) = power_int 2 24 * power_int 2 (k - 23)"
    unfolding e by (rule power_int_add) simp
  then show ?thesis
    by simp
qed

lemma binade_bottom: "power_int (2::real) k = of_int (2 ^ 23) * power_int 2 (k - 23)"
proof -
  have e: "k = 23 + (k - 23)"
    by simp
  have "power_int (2::real) k = power_int 2 23 * power_int 2 (k - 23)"
    by (subst e) (rule power_int_add, simp)
  then show ?thesis
    by simp
qed

lemma fround_pos:
  "0 < x \<Longrightarrow> fround x = of_int (round_even (x / power_int 2 (fexp x - 23))) * power_int 2 (fexp x - 23)"
  by (simp add: fround_def Let_def)

lemma fexp_bounds:
  assumes "0 < x"
  shows "x < power_int 2 (fexp x + 1)"
    and "- 126 \<le> \<lfloor>log 2 x\<rfloor> \<Longrightarrow> power_int 2 (fexp x) \<le> x"
proof -
  from assms have ax: "\<bar>x\<bar> = x" by simp
  define e where "e = \<lfloor>log 2 x\<rfloor>"
  have fe: "fexp x = max e (- 126)"
    by (simp only: fexp_def ax e_def)
  from floor_log2_bounds [OF assms] have b: "power_int 2 e \<le> x" "x < power_int 2 (e + 1)"
    by (simp_all only: e_def)
  have "e + 1 \<le> fexp x + 1"
    unfolding fe by linarith
  then have "power_int (2::real) (e + 1) \<le> power_int 2 (fexp x + 1)"
    by (rule power_int_increasing) simp
  with b(2) show "x < power_int 2 (fexp x + 1)"
    by linarith
  show "power_int 2 (fexp x) \<le> x" if "- 126 \<le> \<lfloor>log 2 x\<rfloor>"
  proof -
    from that have "fexp x = e"
      unfolding fe e_def by linarith
    with b(1) show ?thesis
      by (simp only:)
  qed
qed

lemma fround_upper:
  assumes "0 < x"
  shows "fround x \<le> power_int 2 (fexp x + 1)"
proof -
  have "x \<le> of_int (2 ^ 24) * power_int 2 (fexp x - 23)"
    using fexp_bounds(1) [OF assms] by (simp only: binade_top)
  then have "round_even (x / power_int 2 (fexp x - 23)) \<le> 2 ^ 24"
    by (intro round_even_le) simp_all
  then have "real_of_int (round_even (x / power_int 2 (fexp x - 23))) \<le> of_int (2 ^ 24)"
    by (simp only: of_int_le_iff)
  then have "of_int (round_even (x / power_int 2 (fexp x - 23))) * power_int 2 (fexp x - 23)
               \<le> of_int (2 ^ 24) * power_int (2::real) (fexp x - 23)"
    by (intro mult_right_mono) simp_all
  then show ?thesis
    by (simp only: fround_pos [OF assms] binade_top)
qed

lemma fround_lower:
  assumes "0 < x" "- 126 \<le> \<lfloor>log 2 x\<rfloor>"
  shows "power_int 2 (fexp x) \<le> fround x"
proof -
  have "of_int (2 ^ 23) * power_int 2 (fexp x - 23) \<le> x"
    using fexp_bounds(2) [OF assms] by (simp only: binade_bottom [symmetric])
  then have "2 ^ 23 \<le> round_even (x / power_int 2 (fexp x - 23))"
    by (intro round_even_ge) simp_all
  then have "of_int (2 ^ 23) \<le> real_of_int (round_even (x / power_int 2 (fexp x - 23)))"
    by (simp only: of_int_le_iff)
  then have "of_int (2 ^ 23) * power_int (2::real) (fexp x - 23)
               \<le> of_int (round_even (x / power_int 2 (fexp x - 23))) * power_int 2 (fexp x - 23)"
    by (intro mult_right_mono) simp_all
  then show ?thesis
    by (simp only: fround_pos [OF assms(1)] binade_bottom [symmetric])
qed

lemma fround_nonneg:
  assumes "0 \<le> x"
  shows "0 \<le> fround x"
proof (cases "x = 0")
  case True
  then show ?thesis by (simp add: fround_def)
next
  case False
  with assms have x: "0 < x" by simp
  have "of_int 0 * power_int 2 (fexp x - 23) \<le> x"
    using x by simp
  then have "0 \<le> round_even (x / power_int 2 (fexp x - 23))"
    by (intro round_even_ge) simp_all
  then show ?thesis
    by (simp add: fround_pos [OF x])
qed

lemma fexp_mono:
  assumes "0 < x" "x \<le> y"
  shows "fexp x \<le> fexp y"
proof -
  from assms have a: "\<bar>x\<bar> = x" "\<bar>y\<bar> = y"
    by simp_all
  from assms have "log 2 x \<le> log 2 y"
    by simp
  then have "\<lfloor>log 2 x\<rfloor> \<le> \<lfloor>log 2 y\<rfloor>"
    by (rule floor_mono)
  then show ?thesis
    unfolding fexp_def a by (intro max.mono order_refl)
qed

lemma fround_mono_pos:
  assumes "0 < x" "x \<le> y"
  shows "fround x \<le> fround y"
proof -
  from assms have y: "0 < y" by simp
  show ?thesis
  proof (cases "fexp x = fexp y")
    case True
    have "x / power_int 2 (fexp y - 23) \<le> y / power_int 2 (fexp y - 23)"
      using assms by (intro divide_right_mono) simp_all
    then have "round_even (x / power_int 2 (fexp y - 23)) \<le> round_even (y / power_int 2 (fexp y - 23))"
      by (rule round_even_mono)
    then have "real_of_int (round_even (x / power_int 2 (fexp y - 23)))
                 \<le> of_int (round_even (y / power_int 2 (fexp y - 23)))"
      by (simp only: of_int_le_iff)
    then have "of_int (round_even (x / power_int 2 (fexp y - 23))) * power_int 2 (fexp y - 23)
                 \<le> of_int (round_even (y / power_int 2 (fexp y - 23))) * power_int (2::real) (fexp y - 23)"
      by (intro mult_right_mono) simp_all
    then show ?thesis
      by (simp only: fround_pos [OF assms(1)] fround_pos [OF y] True)
  next
    case False
    with fexp_mono [OF assms] have lt: "fexp x + 1 \<le> fexp y"
      by simp
    have "- 126 \<le> fexp x"
      by (simp add: fexp_def)
    with lt have "fexp y \<noteq> - 126"
      by simp
    moreover from y have "fexp y = max \<lfloor>log 2 y\<rfloor> (- 126)"
      by (simp only: fexp_def abs_of_pos)
    ultimately have ny: "- 126 \<le> \<lfloor>log 2 y\<rfloor>"
      by linarith
    have "fround x \<le> power_int 2 (fexp x + 1)"
      by (rule fround_upper [OF assms(1)])
    also have "\<dots> \<le> power_int 2 (fexp y)"
      using lt by (intro power_int_increasing) simp_all
    also have "\<dots> \<le> fround y"
      by (rule fround_lower [OF y ny])
    finally show ?thesis .
  qed
qed

lemma fexp_uminus: "fexp (- x) = fexp x"
  by (simp add: fexp_def)

lemma fround_uminus: "fround (- x) = - fround x"
  by (simp add: fround_def Let_def fexp_uminus round_even_uminus)

text \<open>Rounding to float32 keeps the order.\<close>

lemma fround_mono:
  assumes "x \<le> y"
  shows "fround x \<le> fround y"
proof -
  consider "0 < x" | "x \<le> 0" "0 \<le> y" | "y < 0"
    using assms by linarith
  then show ?thesis
  proof cases
    case 1
    from 1 assms show ?thesis by (rule fround_mono_pos)
  next
    case 2
    from fround_nonneg [of "- x"] 2 have "fround x \<le> 0"
      by (simp add: fround_uminus)
    also from 2 have "0 \<le> fround y"
      by (intro fround_nonneg)
    finally show ?thesis .
  next
    case 3
    with assms have "0 < - y" "- y \<le> - x"
      by simp_all
    from fround_mono_pos [OF this] show ?thesis
      by (simp add: fround_uminus)
  qed
qed

lemma fround_eval:
  assumes "0 < x" "power_int 2 q \<le> x" "x < power_int 2 (q + 1)" "- 126 \<le> q"
  shows "fround x = of_int (round_even (x / power_int 2 (q - 23))) * power_int 2 (q - 23)"
proof -
  from assms have "\<lfloor>log 2 x\<rfloor> = q"
    by (intro floor_log2_unique)
  with assms have "fexp x = q"
    by (simp add: fexp_def)
  with fround_pos [OF assms(1)] show ?thesis
    by simp
qed

section \<open>The range of the curve and of the table\<close>

lemma affine_range:
  fixes v :: real
  assumes "0 \<le> v" "v \<le> 1" "a \<le> b"
  shows "a \<le> a + v * (b - a) \<and> a + v * (b - a) \<le> b"
proof -
  have "0 \<le> v * (b - a)" using assms by simp
  moreover have "v * (b - a) \<le> 1 * (b - a)"
    using assms by (intro mult_right_mono) simp_all
  ultimately show ?thesis by simp
qed

lemma generateScaleLUT_free_nth:
  "i < LUT_SIZE \<Longrightarrow>
     generateScaleLUT_free p1x p1y p2x p2y startY endY a b ! i =
       fround (a + sampleBezierY (real i / 255) p1x p1y p2x p2y startY endY * (b - a))"
  by (simp add: generateScaleLUT_free_def LUT_SIZE_def Let_def)

lemma generateScaleLUT_nth:
  "i < LUT_SIZE \<Longrightarrow>
     generateScaleLUT p1x p1y p2x p2y isReversed a b ! i =
       fround (a + sampleBezierY (real i / 255) p1x p1y p2x p2y
                     (if isReversed then 0 else 1) (if isReversed then 1 else 0) * (b - a))"
  by (simp add: generateScaleLUT_def LUT_SIZE_def Let_def)

lemma generateScaleLUT_length:
  "length (generateScaleLUT p1x p1y p2x p2y isReversed a b) = LUT_SIZE"
  "length (generateScaleLUT_free p1x p1y p2x p2y startY endY a b) = LUT_SIZE"
  by (simp_all add: generateScaleLUT_def generateScaleLUT_free_def)

lemma generateScaleLUT_is_free:
  "generateScaleLUT p1x p1y p2x p2y isReversed a b =
     generateScaleLUT_free p1x p1y p2x p2y (if isReversed then 0 else 1)
       (if isReversed then 1 else 0) a b"
  by (simp add: generateScaleLUT_def generateScaleLUT_free_def Let_def)

text \<open>
  Claim C10, as amended. When the four control values \<open>startY\<close>, \<open>p1y\<close>, \<open>p2y\<close>, \<open>endY\<close>
  lie in \<open>[0, 1]\<close>, the curve solver returns a value in \<open>[0, 1]\<close> for every query \<open>u\<close> and
  all \<open>p1x\<close>, \<open>p2x\<close>; and when moreover the lower scale bound \<open>a\<close> is at most the upper
  bound \<open>b\<close>, every entry of the generated table is the single-precision rounding of a
  value in \<open>[a, b]\<close>, so that it lies between the roundings of \<open>a\<close> and of \<open>b\<close> (between
  \<open>a\<close> and \<open>b\<close> themselves when these are single-precision numbers), for the variant with
  free anchors and for the variant with the reversal flag.
\<close>

theorem curve_stays_in_unit_interval:
  assumes "0 \<le> startY" "startY \<le> 1" "0 \<le> p1y" "p1y \<le> 1"
    and "0 \<le> p2y" "p2y \<le> 1" "0 \<le> endY" "endY \<le> 1"
  shows "0 \<le> sampleBezierY u p1x p1y p2x p2y startY endY \<and>
         sampleBezierY u p1x p1y p2x p2y startY endY \<le> 1 \<and>
         (a \<le> b \<longrightarrow>
            (\<forall>i < LUT_SIZE.
               (\<exists>v. a \<le> v \<and> v \<le> b \<and>
                    generateScaleLUT_free p1x p1y p2x p2y startY endY a b ! i = fround v) \<and>
               fround a \<le> generateScaleLUT_free p1x p1y p2x p2y startY endY a b ! i \<and>
               generateScaleLUT_free p1x p1y p2x p2y startY endY a b ! i \<le> fround b \<and>
               (\<exists>v. a \<le> v \<and> v \<le> b \<and>
                    generateScaleLUT p1x p1y p2x p2y isReversed a b ! i = fround v) \<and>
               fround a \<le> generateScaleLUT p1x p1y p2x p2y isReversed a b ! i \<and>
               generateScaleLUT p1x p1y p2x p2y isReversed a b ! i \<le> fround b \<and>
               (fround a = a \<and> fround b = b \<longrightarrow>
                  a \<le> generateScaleLUT_free p1x p1y p2x p2y startY endY a b ! i \<and>
                  generateScaleLUT_free p1x p1y p2x p2y startY endY a b ! i \<le> b \<and>
                  a \<le> generateScaleLUT p1x p1y p2x p2y isReversed a b ! i \<and>
                  generateScaleLUT p1x p1y p2x p2y isReversed a b ! i \<le> b)))"
proof -
  have r: "0 \<le> sampleBezierY v p1x p1y p2x p2y startY endY \<and>
           sampleBezierY v p1x p1y p2x p2y startY endY \<le> 1" for v
    using sampleBezierY_range [of 0 startY p1y p2y endY 1] assms by simp
  have r': "0 \<le> sampleBezierY v p1x p1y p2x p2y (if isReversed then 0 else 1)
                   (if isReversed then 1 else 0) \<and>
            sampleBezierY v p1x p1y p2x p2y (if isReversed then 0 else 1)
                   (if isReversed then 1 else 0) \<le> 1" for v
    using sampleBezierY_range [of 0 "if isReversed then 0 else 1" p1y p2y
        "if isReversed then 1 else 0" 1] assms by simp
  have tab: "(\<exists>v. a \<le> v \<and> v \<le> b \<and> fround (a + s * (b - a)) = fround v) \<and>
             fround a \<le> fround (a + s * (b - a)) \<and> fround (a + s * (b - a)) \<le> fround b"
    if "a \<le> b" "0 \<le> s \<and> s \<le> 1" for s
  proof -
    from affine_range [of s a b] that
    have v: "a \<le> a + s * (b - a)" "a + s * (b - a) \<le> b"
      by simp_all
    from v fround_mono [OF v(1)] fround_mono [OF v(2)] show ?thesis
      by blast
  qed
  have "(\<exists>v. a \<le> v \<and> v \<le> b \<and>
             generateScaleLUT_free p1x p1y p2x p2y startY endY a b ! i = fround v) \<and>
        fround a \<le> generateScaleLUT_free p1x p1y p2x p2y startY endY a b ! i \<and>
        generateScaleLUT_free p1x p1y p2x p2y startY endY a b ! i \<le> fround b \<and>
        (\<exists>v. a \<le> v \<and> v \<le> b \<and>
             generateScaleLUT p1x p1y p2x p2y isReversed a b ! i = fround v) \<and>
        fround a \<le> generateScaleLUT p1x p1y p2x p2y isReversed a b ! i \<and>
        generateScaleLUT p1x p1y p2x p2y isReversed a b ! i \<le> fround b"
    if "a \<le> b" "i < LUT_SIZE" for i
    unfolding generateScaleLUT_free_nth [OF that(2)] generateScaleLUT_nth [OF that(2)]
    using tab [OF that(1) r] tab [OF that(1) r'] by blast
  with r [of u] show ?thesis
    by metis
qed

theorem curve_stays_in_unit_interval_witness:
  "(0::real) \<le> 1 \<and> (1::real) \<le> 1 \<and> (0::real) \<le> 8 / 10 \<and> (8 / 10 :: real) \<le> 1 \<and>
   (0::real) \<le> 2 / 10 \<and> (2 / 10 :: real) \<le> 1 \<and> (0::real) \<le> 0 \<and> (0::real) \<le> 1 \<and>
   0 \<le> sampleBezierY (1 / 2) (33 / 100) (8 / 10) (66 / 100) (2 / 10) 1 0 \<and>
   sampleBezierY (1 / 2) (33 / 100) (8 / 10) (66 / 100) (2 / 10) 1 0 \<le> 1 \<and>
   fround (3 / 100)
     \<le> generateScaleLUT (33 / 100) (8 / 10) (66 / 100) (2 / 10) False (3 / 100) 2 ! 128 \<and>
   generateScaleLUT (33 / 100) (8 / 10) (66 / 100) (2 / 10) False (3 / 100) 2 ! 128 \<le> fround 2"
  using curve_stays_in_unit_interval
    [of 1 "8 / 10" "2 / 10" 0 "1 / 2" "33 / 100" "66 / 100" "3 / 100" 2 False]
  by (simp add: LUT_SIZE_def)

text \<open>
  The claim as it was stated fails: the lower scale bound 0.03 is not a single-precision
  number. With both control points on the bottom edge (\<open>p1y = p2y = 0\<close>), the anchors 1
  and 0 and the scale bounds 0.03 and 2, the solver returns \<open>2 ^ (- 42)\<close> at \<open>u = 1\<close>, so
  the last entry of the table is computed as a value just above 0.03, and it is stored as \<open>16106127 / 2 ^ 29\<close>, about \<open>0.0299999993\<close>, which
  is below the lower bound.
\<close>

theorem table_entry_below_minScale:
  "(0::real) \<le> 1 \<and> (1::real) \<le> 1 \<and> (0::real) \<le> 0 \<and> (0::real) \<le> 1 \<and>
   (3 / 100 :: real) \<le> 2 \<and> 255 < LUT_SIZE \<and>
   generateScaleLUT (33 / 100) 0 (66 / 100) 0 False (3 / 100) 2 ! 255 = 16106127 / 2 ^ 29 \<and>
   \<not> 3 / 100 \<le> generateScaleLUT (33 / 100) 0 (66 / 100) 0 False (3 / 100) 2 ! 255"
proof -
  have y: "sampleBezierY 1 (33 / 100) 0 (66 / 100) 0 1 0 = 1 / 2 ^ 42"
    by code_simp
  have p: "(0::real) < 3 / 100 + sampleBezierY 1 (33 / 100) 0 (66 / 100) 0 1 0 * (2 - 3 / 100)"
    unfolding y by simp
  have lo: "power_int 2 (- 6)
              \<le> 3 / 100 + sampleBezierY 1 (33 / 100) 0 (66 / 100) 0 1 0 * (2 - 3 / 100)"
    unfolding y by simp
  have hi: "3 / 100 + sampleBezierY 1 (33 / 100) 0 (66 / 100) 0 1 0 * (2 - 3 / 100)
              < power_int 2 (- 6 + 1)"
    unfolding y by simp
  have r: "round_even ((3 / 100 + sampleBezierY 1 (33 / 100) 0 (66 / 100) 0 1 0 * (2 - 3 / 100))
                        / power_int 2 (- 6 - 23)) = 16106127"
    unfolding y by code_simp
  have q: "- 126 \<le> (- 6 :: int)"
    by simp
  from fround_eval [OF p lo hi q]
  have "fround (3 / 100 + sampleBezierY 1 (33 / 100) 0 (66 / 100) 0 1 0 * (2 - 3 / 100))
          = of_int 16106127 * power_int 2 (- 6 - 23)"
    by (simp only: r)
  also have "\<dots> = 16106127 / 2 ^ 29"
    by simp
  finally have e: "generateScaleLUT (33 / 100) 0 (66 / 100) 0 False (3 / 100) 2 ! 255
                  = 16106127 / 2 ^ 29"
    by (simp add: generateScaleLUT_nth LUT_SIZE_def)
  show ?thesis
    unfolding e by (simp add: LUT_SIZE_def)
qed

section \<open>Termination of the curve solver\<close>

lemma bisect_first_body: "1 \<le> snd (bisect 0 low high t targetX p1x p2x)"
  using bisect_progress [of "Suc 0"]
  by (subst bisect.simps) (simp add: Let_def)

text \<open>
  Claim C9. The curve solver is total: for all real inputs, the degenerate control points
  with \<open>p1x = p2x\<close> among them, its loop ends after at least one and at most 24 bodies and
  the solver returns the curve at the parameter the loop ended with. (That the loop ends
  at all is the termination proof of \<open>bisect\<close>.)
\<close>

theorem sampleBezierY_total:
  "\<exists>t n. bisect 0 0 1 (clamp01 u) (clamp01 u) p1x p2x = (t, n) \<and> 1 \<le> n \<and> n \<le> 24 \<and>
     sampleBezierY u p1x p1y p2x p2y startY endY = cubicBezierCoord t startY p1y p2y endY"
  using bisect_first_body [of 0 1 "clamp01 u" "clamp01 u" p1x p2x]
    bisect_iterations [of 0 0 1 "clamp01 u" "clamp01 u" p1x p2x]
  by (cases "bisect 0 0 1 (clamp01 u) (clamp01 u) p1x p2x")
     (simp add: sampleBezierY_def solveT_def Let_def)

section \<open>Monotonicity of the solver and of the table\<close>

lemma bisect_step:
  "i < 24 \<Longrightarrow>
     bisect i low high t v p1x p2x =
       (if \<bar>cubicBezierCoord ((low + high) / 2) 0 p1x p2x 1 - v\<bar> < 1 / 10000
        then ((low + high) / 2, Suc i)
        else if cubicBezierCoord ((low + high) / 2) 0 p1x p2x 1 < v
        then bisect (Suc i) ((low + high) / 2) high ((low + high) / 2) v p1x p2x
        else bisect (Suc i) low ((low + high) / 2) ((low + high) / 2) v p1x p2x)"
  by (subst bisect.simps) (simp add: Let_def)

lemma bisect_exit: "\<not> i < 24 \<Longrightarrow> bisect i low high t v p1x p2x = (t, i)"
  by (subst bisect.simps) simp

text \<open>
  The loop is monotone in its target, whatever the curve is: two runs from the same state
  agree until one of them stops or they part, the run for the smaller target to the left.
\<close>

lemma bisect_mono:
  "u \<le> u' \<Longrightarrow> low \<le> t \<Longrightarrow> t \<le> high \<Longrightarrow>
     fst (bisect i low high t u p1x p2x) \<le> fst (bisect i low high t u' p1x p2x)"
proof (induction i low high t u p1x p2x rule: bisect.induct)
  case (1 i low high t u p1x p2x)
  define mid where "mid = (low + high) / 2"
  define x where "x = cubicBezierCoord mid 0 p1x p2x 1"
  from "1.prems" have lh: "low \<le> mid" "mid \<le> high"
    by (simp_all add: mid_def)
  show ?case
  proof (cases "i < 24")
    case False
    then show ?thesis by (simp add: bisect_exit)
  next
    case lt: True
    note step = bisect_step [OF lt, of low high t _ p1x p2x, folded mid_def, folded x_def]
    have right: "mid \<le> fst (bisect (Suc i) mid high mid v p1x p2x)" for v
      using bisect_range [of mid mid high "Suc i" v p1x p2x] lh by simp
    have left: "fst (bisect (Suc i) low mid mid v p1x p2x) \<le> mid" for v
      using bisect_range [of low mid mid "Suc i" v p1x p2x] lh by simp
    consider (brk) "\<bar>x - u\<bar> < 1 / 10000"
      | (r) "\<not> \<bar>x - u\<bar> < 1 / 10000" "x < u"
      | (l) "\<not> \<bar>x - u\<bar> < 1 / 10000" "\<not> x < u"
      by blast
    then show ?thesis
    proof cases
      case brk
      with "1.prems"(1) have "\<bar>x - u'\<bar> < 1 / 10000 \<or> x < u'"
        by linarith
      with brk right [of u'] show ?thesis
        by (auto simp: step)
    next
      case r
      with "1.prems"(1) have r': "\<not> \<bar>x - u'\<bar> < 1 / 10000" "x < u'"
        by linarith+
      from "1.IH"(1) [OF lt mid_def x_def r "1.prems"(1)] lh
      have "fst (bisect (Suc i) mid high mid u p1x p2x)
              \<le> fst (bisect (Suc i) mid high mid u' p1x p2x)"
        by simp
      with r r' show ?thesis
        by (simp add: step)
    next
      case l
      show ?thesis
      proof (cases "\<bar>x - u'\<bar> < 1 / 10000")
        case True
        with l left [of u] show ?thesis
          by (simp add: step)
      next
        case nb: False
        show ?thesis
        proof (cases "x < u'")
          case True
          from left [of u] right [of u']
          have "fst (bisect (Suc i) low mid mid u p1x p2x)
                  \<le> fst (bisect (Suc i) mid high mid u' p1x p2x)"
            by linarith
          with l nb True show ?thesis
            by (simp add: step)
        next
          case False
          from "1.IH"(2) [OF lt mid_def x_def l "1.prems"(1)] lh
          have "fst (bisect (Suc i) low mid mid u p1x p2x)
                  \<le> fst (bisect (Suc i) low mid mid u' p1x p2x)"
            by simp
          with l nb False show ?thesis
            by (simp add: step)
        qed
      qed
    qed
  qed
qed

lemma clamp01_mono: "u \<le> u' \<Longrightarrow> clamp01 u \<le> clamp01 u'"
  by (simp add: clamp01_def min_def max_def)

lemma bisect_start_indep:
  "fst (bisect 0 low high t v p1x p2x) = fst (bisect 0 low high t' v p1x p2x)"
  by (simp add: bisect_step)

lemma solveT_mono: "u \<le> u' \<Longrightarrow> solveT u p1x p2x \<le> solveT u' p1x p2x"
proof -
  assume "u \<le> u'"
  then have c: "clamp01 u \<le> clamp01 u'"
    by (rule clamp01_mono)
  have "fst (bisect 0 0 1 (clamp01 u) (clamp01 u) p1x p2x)
          \<le> fst (bisect 0 0 1 (clamp01 u) (clamp01 u') p1x p2x)"
    using bisect_mono [OF c, of 0 "clamp01 u" 1 0 p1x p2x] clamp01_range [of u] by simp
  also have "\<dots> = fst (bisect 0 0 1 (clamp01 u') (clamp01 u') p1x p2x)"
    by (rule bisect_start_indep)
  finally show ?thesis
    by (simp add: solveT_def Let_def)
qed

text \<open>
  A cubic whose control values do not increase does not increase on \<open>[0, 1]\<close>: it is the
  last control value plus the three steps between the control values, each weighted by a
  partial sum of Bernstein polynomials, and these sums do not increase.
\<close>

lemma cubicBezierCoord_partial_sums:
  "cubicBezierCoord t p0 p1 p2 p3 =
     p3 + (p2 - p3) * (1 - t ^ 3) + (p1 - p2) * (1 - 3 * t ^ 2 + 2 * t ^ 3)
        + (p0 - p1) * (1 - t) ^ 3"
  by (simp add: cubicBezierCoord_def Let_def power2_eq_square power3_eq_cube algebra_simps)

lemma partial_sum_mid_antimono:
  fixes s t :: real
  assumes "0 \<le> s" "s \<le> t" "t \<le> 1"
  shows "1 - 3 * t ^ 2 + 2 * t ^ 3 \<le> 1 - 3 * s ^ 2 + 2 * s ^ 3"
proof -
  have "(1 - 3 * s ^ 2 + 2 * s ^ 3) - (1 - 3 * t ^ 2 + 2 * t ^ 3)
          = (t - s) * (s * (3 - 2 * s - t) + t * (3 - 2 * t - s))"
    by (simp add: power2_eq_square power3_eq_cube algebra_simps)
  moreover have "0 \<le> (t - s) * (s * (3 - 2 * s - t) + t * (3 - 2 * t - s))"
    using assms by (intro mult_nonneg_nonneg add_nonneg_nonneg) simp_all
  ultimately show ?thesis by linarith
qed

lemma cubicBezierCoord_antimono:
  assumes "p3 \<le> p2" "p2 \<le> p1" "p1 \<le> p0" and "0 \<le> s" "s \<le> t" "t \<le> 1"
  shows "cubicBezierCoord t p0 p1 p2 p3 \<le> cubicBezierCoord s p0 p1 p2 p3"
proof -
  have "s ^ 3 \<le> t ^ 3"
    using assms by (intro power_mono) simp_all
  then have a: "(p2 - p3) * (1 - t ^ 3) \<le> (p2 - p3) * (1 - s ^ 3)"
    using assms by (intro mult_left_mono) simp_all
  have b: "(p1 - p2) * (1 - 3 * t ^ 2 + 2 * t ^ 3) \<le> (p1 - p2) * (1 - 3 * s ^ 2 + 2 * s ^ 3)"
    using assms partial_sum_mid_antimono [of s t] by (intro mult_left_mono) simp_all
  have "(1 - t) ^ 3 \<le> (1 - s) ^ 3"
    using assms by (intro power_mono) simp_all
  then have c: "(p0 - p1) * (1 - t) ^ 3 \<le> (p0 - p1) * (1 - s) ^ 3"
    using assms by (intro mult_left_mono) simp_all
  from a b c show ?thesis
    unfolding cubicBezierCoord_partial_sums by linarith
qed

lemma cubicBezierCoord_uminus:
  "cubicBezierCoord t (- p0) (- p1) (- p2) (- p3) = - cubicBezierCoord t p0 p1 p2 p3"
  by (simp add: cubicBezierCoord_def Let_def algebra_simps)

lemma cubicBezierCoord_mono:
  assumes "p0 \<le> p1" "p1 \<le> p2" "p2 \<le> p3" and "0 \<le> s" "s \<le> t" "t \<le> 1"
  shows "cubicBezierCoord s p0 p1 p2 p3 \<le> cubicBezierCoord t p0 p1 p2 p3"
  using cubicBezierCoord_antimono [of "- p3" "- p2" "- p1" "- p0" s t] assms
  by (simp add: cubicBezierCoord_uminus)

lemma lut_arg_mono: "real i / 255 \<le> real (Suc i) / 255"
  by simp

text \<open>
  Claim C7. With \<open>startY = 1\<close> and \<open>endY = 0\<close> (the flag \<open>isReversed\<close> off), when the
  curve's \<open>Y\<close> does not increase on \<open>[0, 1]\<close>, the generated table does not increase with
  the index; with \<open>startY = 0\<close> and \<open>endY = 1\<close> (the flag on), when \<open>Y\<close> does not decrease,
  the table does not decrease. The scale bounds are ordered, \<open>a \<le> b\<close>, as the range slider
  keeps them. Nothing is needed of \<open>X\<close>: the bisection is monotone in its target for every
  \<open>p1x\<close> and \<open>p2x\<close>.
\<close>

theorem lut_monotone:
  assumes "a \<le> b"
  shows "((\<forall>s t. 0 \<le> s \<and> s \<le> t \<and> t \<le> 1 \<longrightarrow>
             cubicBezierCoord t 1 p1y p2y 0 \<le> cubicBezierCoord s 1 p1y p2y 0) \<longrightarrow>
          (\<forall>i. Suc i < LUT_SIZE \<longrightarrow>
             generateScaleLUT p1x p1y p2x p2y False a b ! Suc i
               \<le> generateScaleLUT p1x p1y p2x p2y False a b ! i)) \<and>
         ((\<forall>s t. 0 \<le> s \<and> s \<le> t \<and> t \<le> 1 \<longrightarrow>
             cubicBezierCoord s 0 p1y p2y 1 \<le> cubicBezierCoord t 0 p1y p2y 1) \<longrightarrow>
          (\<forall>i. Suc i < LUT_SIZE \<longrightarrow>
             generateScaleLUT p1x p1y p2x p2y True a b ! i
               \<le> generateScaleLUT p1x p1y p2x p2y True a b ! Suc i))"
proof (intro conjI impI allI)
  fix i
  assume y: "\<forall>s t. 0 \<le> s \<and> s \<le> t \<and> t \<le> 1 \<longrightarrow>
               cubicBezierCoord t 1 p1y p2y 0 \<le> cubicBezierCoord s 1 p1y p2y 0"
    and i: "Suc i < LUT_SIZE"
  have "solveT (real i / 255) p1x p2x \<le> solveT (real (Suc i) / 255) p1x p2x"
    by (rule solveT_mono) (rule lut_arg_mono)
  with y solveT_range [of "real i / 255" p1x p2x] solveT_range [of "real (Suc i) / 255" p1x p2x]
  have "sampleBezierY (real (Suc i) / 255) p1x p1y p2x p2y 1 0
          \<le> sampleBezierY (real i / 255) p1x p1y p2x p2y 1 0"
    unfolding sampleBezierY_def by blast
  then have "sampleBezierY (real (Suc i) / 255) p1x p1y p2x p2y 1 0 * (b - a)
               \<le> sampleBezierY (real i / 255) p1x p1y p2x p2y 1 0 * (b - a)"
    using assms by (intro mult_right_mono) simp_all
  then have "fround (a + sampleBezierY (real (Suc i) / 255) p1x p1y p2x p2y 1 0 * (b - a))
               \<le> fround (a + sampleBezierY (real i / 255) p1x p1y p2x p2y 1 0 * (b - a))"
    by (intro fround_mono) simp
  with i show "generateScaleLUT p1x p1y p2x p2y False a b ! Suc i
                 \<le> generateScaleLUT p1x p1y p2x p2y False a b ! i"
    by (simp add: generateScaleLUT_nth del: of_nat_Suc)
next
  fix i
  assume y: "\<forall>s t. 0 \<le> s \<and> s \<le> t \<and> t \<le> 1 \<longrightarrow>
               cubicBezierCoord s 0 p1y p2y 1 \<le> cubicBezierCoord t 0 p1y p2y 1"
    and i: "Suc i < LUT_SIZE"
  have "solveT (real i / 255) p1x p2x \<le> solveT (real (Suc i) / 255) p1x p2x"
    by (rule solveT_mono) (rule lut_arg_mono)
  with y solveT_range [of "real i / 255" p1x p2x] solveT_range [of "real (Suc i) / 255" p1x p2x]
  have "sampleBezierY (real i / 255) p1x p1y p2x p2y 0 1
          \<le> sampleBezierY (real (Suc i) / 255) p1x p1y p2x p2y 0 1"
    unfolding sampleBezierY_def by blast
  then have "sampleBezierY (real i / 255) p1x p1y p2x p2y 0 1 * (b - a)
               \<le> sampleBezierY (real (Suc i) / 255) p1x p1y p2x p2y 0 1 * (b - a)"
    using assms by (intro mult_right_mono) simp_all
  then have "fround (a + sampleBezierY (real i / 255) p1x p1y p2x p2y 0 1 * (b - a))
               \<le> fround (a + sampleBezierY (real (Suc i) / 255) p1x p1y p2x p2y 0 1 * (b - a))"
    by (intro fround_mono) simp
  with i show "generateScaleLUT p1x p1y p2x p2y True a b ! i
                 \<le> generateScaleLUT p1x p1y p2x p2y True a b ! Suc i"
    by (simp add: generateScaleLUT_nth del: of_nat_Suc)
qed

theorem lut_monotone_witness:
  "(3 / 100 :: real) \<le> 2 \<and>
   generateScaleLUT (33 / 100) (8 / 10) (66 / 100) (2 / 10) False (3 / 100) 2 ! Suc 100
     \<le> generateScaleLUT (33 / 100) (8 / 10) (66 / 100) (2 / 10) False (3 / 100) 2 ! 100 \<and>
   generateScaleLUT (33 / 100) (2 / 10) (66 / 100) (8 / 10) True (3 / 100) 2 ! 100
     \<le> generateScaleLUT (33 / 100) (2 / 10) (66 / 100) (8 / 10) True (3 / 100) 2 ! Suc 100"
proof -
  have ab: "(3 / 100 :: real) \<le> 2"
    by simp
  have down: "\<forall>s t. 0 \<le> s \<and> s \<le> t \<and> t \<le> 1 \<longrightarrow>
      cubicBezierCoord t 1 (8 / 10) (2 / 10) 0 \<le> cubicBezierCoord s 1 (8 / 10) (2 / 10) 0"
    by (simp add: cubicBezierCoord_antimono)
  have up: "\<forall>s t. 0 \<le> s \<and> s \<le> t \<and> t \<le> 1 \<longrightarrow>
      cubicBezierCoord s 0 (2 / 10) (8 / 10) 1 \<le> cubicBezierCoord t 0 (2 / 10) (8 / 10) 1"
    by (simp add: cubicBezierCoord_mono)
  have i: "Suc 100 < LUT_SIZE"
    by (simp add: LUT_SIZE_def)
  from lut_monotone [OF ab, of "8 / 10" "2 / 10" "33 / 100" "66 / 100"] down i
  have 1: "generateScaleLUT (33 / 100) (8 / 10) (66 / 100) (2 / 10) False (3 / 100) 2 ! Suc 100
     \<le> generateScaleLUT (33 / 100) (8 / 10) (66 / 100) (2 / 10) False (3 / 100) 2 ! 100"
    by blast
  from lut_monotone [OF ab, of "2 / 10" "8 / 10" "33 / 100" "66 / 100"] up i
  have 2: "generateScaleLUT (33 / 100) (2 / 10) (66 / 100) (8 / 10) True (3 / 100) 2 ! 100
     \<le> generateScaleLUT (33 / 100) (2 / 10) (66 / 100) (8 / 10) True (3 / 100) 2 ! Suc 100"
    by blast
  from ab 1 2 show ?thesis
    by blast
qed

section \<open>The solver at the two ends of the curve\<close>

lemma curveX_bernstein:
  "cubicBezierCoord t 0 p1x p2x 1 =
     3 * (1 - t) ^ 2 * t * p1x + 3 * (1 - t) * t ^ 2 * p2x + t ^ 3"
  by (simp add: cubicBezierCoord_bernstein)

lemma curveX_co_bernstein:
  "1 - cubicBezierCoord t 0 p1x p2x 1 =
     (1 - t) ^ 3 + 3 * (1 - t) ^ 2 * t * (1 - p1x) + 3 * (1 - t) * t ^ 2 * (1 - p2x)"
  by (simp add: cubicBezierCoord_def Let_def power2_eq_square power3_eq_cube algebra_simps)

lemma curveX_nonneg:
  assumes "0 \<le> t" "t \<le> 1" "0 \<le> p1x" "0 \<le> p2x"
  shows "0 \<le> cubicBezierCoord t 0 p1x p2x 1"
  unfolding curveX_bernstein using assms by (intro add_nonneg_nonneg mult_nonneg_nonneg) simp_all

lemma curveX_le_3t:
  assumes "0 \<le> t" "t \<le> 1" "p1x \<le> 1" "p2x \<le> 1"
  shows "cubicBezierCoord t 0 p1x p2x 1 \<le> 3 * t"
proof -
  have "3 * (1 - t) ^ 2 * t * p1x \<le> 3 * (1 - t) ^ 2 * t * 1"
    using assms by (intro mult_left_mono mult_nonneg_nonneg) simp_all
  moreover have "3 * (1 - t) * t ^ 2 * p2x \<le> 3 * (1 - t) * t ^ 2 * 1"
    using assms by (intro mult_left_mono mult_nonneg_nonneg) simp_all
  moreover have "3 * (1 - t) ^ 2 * t * 1 + 3 * (1 - t) * t ^ 2 * 1 + t ^ 3 = 3 * t - 3 * t ^ 2 + t ^ 3"
    by (simp add: power2_eq_square power3_eq_cube algebra_simps)
  moreover have "t ^ 3 \<le> 3 * t ^ 2"
  proof -
    have "t ^ 2 * t \<le> t ^ 2 * 3" using assms by (intro mult_left_mono) simp_all
    then show ?thesis by (simp add: power2_eq_square power3_eq_cube algebra_simps)
  qed
  ultimately show ?thesis unfolding curveX_bernstein by linarith
qed

lemma curveX_less_1:
  assumes "0 \<le> t" "t < 1" "p1x \<le> 1" "p2x \<le> 1"
  shows "cubicBezierCoord t 0 p1x p2x 1 < 1"
proof -
  have "0 < (1 - t) ^ 3" using assms by simp
  moreover have "0 \<le> 3 * (1 - t) ^ 2 * t * (1 - p1x)"
    using assms by (intro mult_nonneg_nonneg) simp_all
  moreover have "0 \<le> 3 * (1 - t) * t ^ 2 * (1 - p2x)"
    using assms by (intro mult_nonneg_nonneg) simp_all
  ultimately have "0 < 1 - cubicBezierCoord t 0 p1x p2x 1"
    unfolding curveX_co_bernstein by linarith
  then show ?thesis by simp
qed

lemma curveX_ge_1_minus:
  assumes "0 \<le> t" "t \<le> 1" "0 \<le> p1x" "0 \<le> p2x"
  shows "1 - 3 * (1 - t) \<le> cubicBezierCoord t 0 p1x p2x 1"
  using curveX_le_3t [of "1 - t" "1 - p2x" "1 - p1x"] assms
  by (simp add: cubicBezierCoord_def Let_def power2_eq_square power3_eq_cube algebra_simps)

lemma half_power_24: "(1 / 2 :: real) ^ 24 = 1 / 16777216"
  by (simp add: power_divide)

text \<open>The loop for the target 0: the upper end is halved until the curve's \<open>X\<close> is small.\<close>

lemma bisect_at_zero:
  assumes "0 \<le> p1x" "p1x \<le> 1" "0 \<le> p2x" "p2x \<le> 1"
  shows "i \<le> 24 \<Longrightarrow> (i = 24 \<longrightarrow> t = (1 / 2) ^ 24) \<Longrightarrow>
     0 \<le> fst (bisect i 0 ((1 / 2) ^ i) t 0 p1x p2x) \<and>
     fst (bisect i 0 ((1 / 2) ^ i) t 0 p1x p2x) \<le> 1 \<and>
     \<bar>cubicBezierCoord (fst (bisect i 0 ((1 / 2) ^ i) t 0 p1x p2x)) 0 p1x p2x 1\<bar> < 1 / 10000"
proof (induction "24 - i" arbitrary: i t)
  case 0
  then have i: "i = 24" by simp
  with 0 have t: "t = (1 / 2) ^ 24" by simp
  have "cubicBezierCoord ((1 / 2) ^ 24) 0 p1x p2x 1 \<le> 3 * (1 / 2) ^ 24"
    using assms by (intro curveX_le_3t) (simp_all add: power_le_one)
  moreover have "0 \<le> cubicBezierCoord ((1 / 2) ^ 24) 0 p1x p2x 1"
    using assms by (intro curveX_nonneg) (simp_all add: power_le_one)
  ultimately show ?case
    by (simp add: i t bisect_exit half_power_24)
next
  case (Suc n)
  then have lt: "i < 24" by simp
  define mid :: real where "mid = (1 / 2) ^ Suc i"
  have mid: "(0 + (1 / 2) ^ i) / 2 = mid"
    by (simp add: mid_def)
  have "(1 / 2 :: real) ^ Suc i \<le> 1"
    by (rule power_le_one) simp_all
  then have m01: "0 \<le> mid" "mid \<le> 1"
    by (simp_all add: mid_def)
  have x0: "0 \<le> cubicBezierCoord mid 0 p1x p2x 1"
    using assms m01 by (intro curveX_nonneg) simp_all
  note step = bisect_step [OF lt, of 0 "(1 / 2) ^ i" t 0 p1x p2x, unfolded mid]
  show ?case
  proof (cases "\<bar>cubicBezierCoord mid 0 p1x p2x 1 - 0\<bar> < 1 / 10000")
    case True
    with m01 show ?thesis
      unfolding step by simp
  next
    case False
    from Suc.hyps(1) [of "Suc i" mid] Suc.hyps(2) Suc.prems(1) lt
    have "0 \<le> fst (bisect (Suc i) 0 mid mid 0 p1x p2x) \<and>
          fst (bisect (Suc i) 0 mid mid 0 p1x p2x) \<le> 1 \<and>
          \<bar>cubicBezierCoord (fst (bisect (Suc i) 0 mid mid 0 p1x p2x)) 0 p1x p2x 1\<bar> < 1 / 10000"
      by (simp add: mid_def)
    with False x0 show ?thesis
      unfolding step by simp
  qed
qed

text \<open>The loop for the target 1: the lower end moves up until \<open>X\<close> is close to 1.\<close>

lemma bisect_at_one:
  assumes "0 \<le> p1x" "p1x \<le> 1" "0 \<le> p2x" "p2x \<le> 1"
  shows "i \<le> 24 \<Longrightarrow> (i = 24 \<longrightarrow> t = 1 - (1 / 2) ^ 24) \<Longrightarrow>
     0 \<le> fst (bisect i (1 - (1 / 2) ^ i) 1 t 1 p1x p2x) \<and>
     fst (bisect i (1 - (1 / 2) ^ i) 1 t 1 p1x p2x) \<le> 1 \<and>
     \<bar>cubicBezierCoord (fst (bisect i (1 - (1 / 2) ^ i) 1 t 1 p1x p2x)) 0 p1x p2x 1 - 1\<bar>
       < 1 / 10000"
proof (induction "24 - i" arbitrary: i t)
  case 0
  then have i: "i = 24" by simp
  with 0 have t: "t = 1 - (1 / 2) ^ 24" by simp
  have "1 - 3 * (1 - (1 - (1 / 2) ^ 24)) \<le> cubicBezierCoord (1 - (1 / 2) ^ 24) 0 p1x p2x 1"
    using assms by (intro curveX_ge_1_minus) (simp_all add: power_le_one)
  moreover have "cubicBezierCoord (1 - (1 / 2) ^ 24) 0 p1x p2x 1 < 1"
    using assms by (intro curveX_less_1) (simp_all add: power_le_one)
  ultimately show ?case
    by (simp add: i t bisect_exit half_power_24)
next
  case (Suc n)
  then have lt: "i < 24" by simp
  define mid :: real where "mid = 1 - (1 / 2) ^ Suc i"
  have mid: "(1 - (1 / 2) ^ i + 1) / 2 = mid"
    by (simp add: mid_def field_simps)
  have "(1 / 2 :: real) ^ Suc i \<le> 1"
    by (rule power_le_one) simp_all
  then have m01: "0 \<le> mid" "mid < 1"
    by (simp_all add: mid_def)
  have x1: "cubicBezierCoord mid 0 p1x p2x 1 < 1"
    using assms m01 by (intro curveX_less_1) simp_all
  note step = bisect_step [OF lt, of "1 - (1 / 2) ^ i" 1 t 1 p1x p2x, unfolded mid]
  show ?case
  proof (cases "\<bar>cubicBezierCoord mid 0 p1x p2x 1 - 1\<bar> < 1 / 10000")
    case True
    with m01 show ?thesis
      unfolding step by simp
  next
    case False
    from Suc.hyps(1) [of "Suc i" mid] Suc.hyps(2) Suc.prems(1) lt
    have "0 \<le> fst (bisect (Suc i) mid 1 mid 1 p1x p2x) \<and>
          fst (bisect (Suc i) mid 1 mid 1 p1x p2x) \<le> 1 \<and>
          \<bar>cubicBezierCoord (fst (bisect (Suc i) mid 1 mid 1 p1x p2x)) 0 p1x p2x 1 - 1\<bar>
            < 1 / 10000"
      by (simp add: mid_def)
    with False x1 show ?thesis
      unfolding step by simp
  qed
qed

lemma solveT_zero:
  assumes "0 \<le> p1x" "p1x \<le> 1" "0 \<le> p2x" "p2x \<le> 1"
  shows "0 \<le> solveT 0 p1x p2x \<and> solveT 0 p1x p2x \<le> 1 \<and>
         \<bar>cubicBezierCoord (solveT 0 p1x p2x) 0 p1x p2x 1\<bar> < 1 / 10000"
  using bisect_at_zero [OF assms, of 0 0]
  by (simp add: solveT_def clamp01_def)

lemma solveT_one:
  assumes "0 \<le> p1x" "p1x \<le> 1" "0 \<le> p2x" "p2x \<le> 1"
  shows "0 \<le> solveT 1 p1x p2x \<and> solveT 1 p1x p2x \<le> 1 \<and>
         \<bar>cubicBezierCoord (solveT 1 p1x p2x) 0 p1x p2x 1 - 1\<bar> < 1 / 10000"
  using bisect_at_one [OF assms, of 0 1]
  by (simp add: solveT_def clamp01_def)


lemma curveY_minus_start:
  "cubicBezierCoord t s p1 p2 e - s =
     3 * (1 - t) ^ 2 * t * (p1 - s) + 3 * (1 - t) * t ^ 2 * (p2 - s) + t ^ 3 * (e - s)"
  by (simp add: cubicBezierCoord_def Let_def power2_eq_square power3_eq_cube algebra_simps)

lemma curveY_minus_end:
  "cubicBezierCoord t s p1 p2 e - e =
     (1 - t) ^ 3 * (s - e) + 3 * (1 - t) ^ 2 * t * (p1 - e) + 3 * (1 - t) * t ^ 2 * (p2 - e)"
  by (simp add: cubicBezierCoord_def Let_def power2_eq_square power3_eq_cube algebra_simps)

lemma weighted_abs_bound:
  fixes a b c :: real
  assumes "0 \<le> a" "0 \<le> b" "0 \<le> c"
    and "\<bar>u\<bar> \<le> K * x" "\<bar>v\<bar> \<le> K * y" "\<bar>w\<bar> \<le> K * z"
  shows "\<bar>a * u + b * v + c * w\<bar> \<le> K * (a * x + b * y + c * z)"
proof -
  have "\<bar>a * u + b * v + c * w\<bar> \<le> \<bar>a * u\<bar> + \<bar>b * v\<bar> + \<bar>c * w\<bar>"
    by linarith
  also have "\<dots> = a * \<bar>u\<bar> + b * \<bar>v\<bar> + c * \<bar>w\<bar>"
    using assms by (simp add: abs_mult)
  also have "\<dots> \<le> a * (K * x) + b * (K * y) + c * (K * z)"
    using assms by (intro add_mono mult_left_mono) simp_all
  also have "\<dots> = K * (a * x + b * y + c * z)"
    by (simp add: algebra_simps)
  finally show ?thesis .
qed

text \<open>
  Claim C6, as amended. The loop stops when the curve's \<open>X\<close> is within \<open>1e-4\<close> of the
  target, so the distance of the returned \<open>Y\<close> from the anchor depends on how steep the
  control polygon is. For \<open>p1x\<close> and \<open>p2x\<close> in \<open>[0, 1]\<close> and every \<open>K\<close> with
  \<open>\<bar>p1y - startY\<bar> \<le> K * p1x\<close>, \<open>\<bar>p2y - startY\<bar> \<le> K * p2x\<close> and \<open>\<bar>endY - startY\<bar> \<le> K\<close>,
  the solver at \<open>u = 0\<close> returns \<open>startY\<close> within \<open>K * 1e-4\<close>, which is \<open>1e-3\<close> for \<open>K = 10\<close>;
  and at \<open>u = 1\<close> it returns \<open>endY\<close> within \<open>K * 1e-4\<close> when \<open>\<bar>p1y - endY\<bar> \<le> K * (1 - p1x)\<close>,
  \<open>\<bar>p2y - endY\<bar> \<le> K * (1 - p2x)\<close> and \<open>\<bar>startY - endY\<bar> \<le> K\<close>.
\<close>

theorem sampleBezierY_endpoints:
  assumes "0 \<le> p1x" "p1x \<le> 1" "0 \<le> p2x" "p2x \<le> 1"
  shows "(\<bar>p1y - startY\<bar> \<le> K * p1x \<and> \<bar>p2y - startY\<bar> \<le> K * p2x \<and> \<bar>endY - startY\<bar> \<le> K \<longrightarrow>
            \<bar>sampleBezierY 0 p1x p1y p2x p2y startY endY - startY\<bar> \<le> K / 10000) \<and>
         (\<bar>p1y - endY\<bar> \<le> K * (1 - p1x) \<and> \<bar>p2y - endY\<bar> \<le> K * (1 - p2x) \<and>
          \<bar>startY - endY\<bar> \<le> K \<longrightarrow>
            \<bar>sampleBezierY 1 p1x p1y p2x p2y startY endY - endY\<bar> \<le> K / 10000)"
proof (intro conjI impI)
  assume h: "\<bar>p1y - startY\<bar> \<le> K * p1x \<and> \<bar>p2y - startY\<bar> \<le> K * p2x \<and> \<bar>endY - startY\<bar> \<le> K"
  define r where "r = solveT 0 p1x p2x"
  from solveT_zero [OF assms] have r: "0 \<le> r" "r \<le> 1"
    and x: "\<bar>cubicBezierCoord r 0 p1x p2x 1\<bar> < 1 / 10000"
    by (simp_all add: r_def)
  from h have K: "0 \<le> K"
    by linarith
  have "\<bar>cubicBezierCoord r startY p1y p2y endY - startY\<bar>
          \<le> K * (3 * (1 - r) ^ 2 * r * p1x + 3 * (1 - r) * r ^ 2 * p2x + r ^ 3 * 1)"
    unfolding curveY_minus_start using r h
    by (intro weighted_abs_bound) simp_all
  also have "\<dots> = K * cubicBezierCoord r 0 p1x p2x 1"
    by (simp add: curveX_bernstein)
  also have "\<dots> \<le> K * (1 / 10000)"
  proof -
    from x have "cubicBezierCoord r 0 p1x p2x 1 \<le> 1 / 10000"
      by linarith
    with K show ?thesis
      by (rule mult_left_mono [rotated])
  qed
  finally show "\<bar>sampleBezierY 0 p1x p1y p2x p2y startY endY - startY\<bar> \<le> K / 10000"
    by (simp add: sampleBezierY_def r_def)
next
  assume h: "\<bar>p1y - endY\<bar> \<le> K * (1 - p1x) \<and> \<bar>p2y - endY\<bar> \<le> K * (1 - p2x) \<and>
             \<bar>startY - endY\<bar> \<le> K"
  define r where "r = solveT 1 p1x p2x"
  from solveT_one [OF assms] have r: "0 \<le> r" "r \<le> 1"
    and x: "\<bar>cubicBezierCoord r 0 p1x p2x 1 - 1\<bar> < 1 / 10000"
    by (simp_all add: r_def)
  from h have K: "0 \<le> K"
    by linarith
  have "\<bar>cubicBezierCoord r startY p1y p2y endY - endY\<bar>
          \<le> K * ((1 - r) ^ 3 * 1 + 3 * (1 - r) ^ 2 * r * (1 - p1x)
                   + 3 * (1 - r) * r ^ 2 * (1 - p2x))"
    unfolding curveY_minus_end using r h
    by (intro weighted_abs_bound) simp_all
  also have "\<dots> = K * (1 - cubicBezierCoord r 0 p1x p2x 1)"
    by (simp add: curveX_co_bernstein)
  also have "\<dots> \<le> K * (1 / 10000)"
  proof -
    from x have "1 - cubicBezierCoord r 0 p1x p2x 1 \<le> 1 / 10000"
      by linarith
    with K show ?thesis
      by (rule mult_left_mono [rotated])
  qed
  finally show "\<bar>sampleBezierY 1 p1x p1y p2x p2y startY endY - endY\<bar> \<le> K / 10000"
    by (simp add: sampleBezierY_def r_def)
qed

theorem sampleBezierY_endpoints_witness:
  "(0::real) \<le> 33 / 100 \<and> (33 / 100 :: real) \<le> 1 \<and> (0::real) \<le> 66 / 100 \<and> (66 / 100 :: real) \<le> 1 \<and>
   \<bar>sampleBezierY 0 (33 / 100) (8 / 10) (66 / 100) (2 / 10) 1 0 - 1\<bar> \<le> 1 / 1000 \<and>
   \<bar>sampleBezierY 1 (33 / 100) (8 / 10) (66 / 100) (2 / 10) 1 0 - 0\<bar> \<le> 1 / 1000"
  using sampleBezierY_endpoints [of "33 / 100" "66 / 100" "8 / 10" 1 10 "2 / 10" 0]
  by simp

text \<open>
  The claim as it was stated fails for a steep curve: with \<open>p1 = (0.01, 0)\<close>,
  \<open>p2 = (0.5, 0)\<close>, \<open>startY = 1\<close> and \<open>endY = 0\<close>, control points that the editor allows, the
  loop stops at \<open>t = 1/512\<close> and the solver returns about \<open>0.9942\<close> at \<open>u = 0\<close>.
\<close>

theorem sampleBezierY_endpoint_counterexample:
  "(0::real) \<le> 1 / 100 \<and> (1 / 100 :: real) + 2 / 100 \<le> 1 / 2 \<and> (1 / 2 :: real) \<le> 1 \<and>
   \<not> \<bar>sampleBezierY 0 (1 / 100) 0 (1 / 2) 0 1 0 - 1\<bar> \<le> 1 / 1000"
proof -
  have "\<not> \<bar>sampleBezierY 0 (1 / 100) 0 (1 / 2) 0 1 0 - 1\<bar> \<le> 1 / 1000"
    by code_simp
  then show ?thesis
    by simp
qed

section \<open>Properties of the distance field\<close>

lemma center_step_skip:
  "weight_at ws c < 1 / 1000 \<Longrightarrow> center_step pos fps ws c dst = dst"
  by (simp add: center_step_def)

lemma center_step_take:
  "\<not> weight_at ws c < 1 / 1000 \<Longrightarrow>
     center_step pos fps ws c dst =
       (if js_less (distanceTo pos (fps ! c) / weight_at ws c) dst
        then Num (distanceTo pos (fps ! c) / weight_at ws c) else dst)"
  by (simp add: center_step_def Let_def)

text \<open>
  After the first \<open>n\<close> centers, the distance is the least of the weighted distances of
  the centers that took part, and \<^verbatim>\<open>Infinity\<close> when none did.
\<close>

lemma fold_center_step:
  "fold (center_step pos fps ws) [0..<n] PosInf =
     (let ds = map (\<lambda>c. distanceTo pos (fps ! c) / weight_at ws c)
                   (filter (\<lambda>c. 1 / 1000 \<le> weight_at ws c) [0..<n])
      in if ds = [] then PosInf else Num (Min (set ds)))"
proof (induction n)
  case 0
  show ?case by simp
next
  case (Suc n)
  define ds where "ds = map (\<lambda>c. distanceTo pos (fps ! c) / weight_at ws c)
                            (filter (\<lambda>c. 1 / 1000 \<le> weight_at ws c) [0..<n])"
  define d where "d = distanceTo pos (fps ! n) / weight_at ws n"
  from Suc have prev: "fold (center_step pos fps ws) [0..<n] PosInf =
                         (if ds = [] then PosInf else Num (Min (set ds)))"
    by (simp add: ds_def Let_def)
  show ?case
  proof (cases "weight_at ws n < 1 / 1000")
    case True
    then show ?thesis
      using prev by (simp add: center_step_skip ds_def Let_def)
  next
    case False
    have new: "map (\<lambda>c. distanceTo pos (fps ! c) / weight_at ws c)
                   (filter (\<lambda>c. 1 / 1000 \<le> weight_at ws c) [0..<Suc n]) = ds @ [d]"
      using False by (simp add: ds_def d_def)
    have "center_step pos fps ws n (if ds = [] then PosInf else Num (Min (set ds)))
            = Num (Min (set (ds @ [d])))"
    proof (cases "ds = []")
      case True
      then show ?thesis
        using False by (simp add: center_step_take d_def)
    next
      case ne: False
      define m where "m = Min (set ds)"
      from ne have M: "Min (set (ds @ [d])) = min d m"
        by (simp add: Min_insert m_def)
      have "center_step pos fps ws n (Num m) = Num (min d m)"
        using False by (simp add: center_step_take d_def [symmetric] min_def)
      with ne show ?thesis
        unfolding M by (simp only: m_def if_False)
    qed
    with prev new show ?thesis
      by (simp add: Let_def)
  qed
qed

lemma nearest_dist_qualifying:
  "nearest_dist pos fps ws =
     (if qualifying pos fps ws = [] then PosInf else Num (Min (set (qualifying pos fps ws))))"
  by (simp add: nearest_dist_def qualifying_def fold_center_step Let_def)


lemma set_qualifying:
  "set (qualifying pos fps ws) =
     {distanceTo pos (fps ! c) / weight_at ws c | c.
        c < length fps \<and> c < MAX_ENGINE_CENTERS \<and> 1 / 1000 \<le> weight_at ws c}"
  by (auto simp: qualifying_def)

lemma distanceTo_nonneg: "0 \<le> distanceTo a b"
  by (cases a; cases b) simp

lemma qualifying_nonneg: "d \<in> set (qualifying pos fps ws) \<Longrightarrow> 0 \<le> d"
proof -
  assume "d \<in> set (qualifying pos fps ws)"
  then obtain c where d: "d = distanceTo pos (fps ! c) / weight_at ws c"
    and w: "1 / 1000 \<le> weight_at ws c"
    unfolding set_qualifying by blast
  from w have "0 \<le> weight_at ws c"
    by linarith
  with distanceTo_nonneg [of pos "fps ! c"] show ?thesis
    unfolding d by (rule divide_nonneg_nonneg)
qed

lemma sphere_t_finite:
  assumes "qualifying pos fps ws \<noteq> []" "0 < maxDist cfg"
  shows "sphere_t cfg fps ws pos = Num (min 1 (Min (set (qualifying pos fps ws)) / maxDist cfg))"
  using assms by (simp add: sphere_t_def nearest_dist_qualifying)

lemma sphere_t_unit:
  assumes "qualifying pos fps ws \<noteq> []" "0 < maxDist cfg"
  shows "0 \<le> min 1 (Min (set (qualifying pos fps ws)) / maxDist cfg)"
proof -
  from assms(1) have "Min (set (qualifying pos fps ws)) \<in> set (qualifying pos fps ws)"
    by (intro Min_in) simp_all
  then have "0 \<le> Min (set (qualifying pos fps ws))"
    by (rule qualifying_nonneg)
  with assms(2) show ?thesis
    by simp
qed

lemma lut_read_index:
  assumes "0 \<le> t" "t \<le> 1" "length l = LUT_SIZE"
  shows "lut_read l (Num (of_int \<lfloor>t * 255\<rfloor>)) = Some (l ! nat \<lfloor>t * 255\<rfloor>)"
proof -
  have "0 \<le> t * 255" using assms by simp
  then have lo: "0 \<le> \<lfloor>t * 255\<rfloor>" by simp
  have "t * 255 \<le> 255" using assms by simp
  then have "\<lfloor>t * 255\<rfloor> \<le> 255" by (simp add: floor_le_iff)
  then have "(of_int \<lfloor>t * 255\<rfloor> :: real) < 256" by linarith
  with lo assms(3) show ?thesis
    by (simp add: LUT_SIZE_def)
qed

text \<open>
  Claim C1. For every grid element, the distance the loop over the centers ends with is
  the least of the Euclidean distances to the centers whose weight is at least 0.001, each
  divided by that center's weight (\<^verbatim>\<open>Infinity\<close> when there is no such center); the
  normalized distance is \<open>t = min(1, distance / maxDist)\<close>; and the scale is read from the
  table at the index \<open>floor(t * (LUT_SIZE - 1))\<close>. When some center takes part and
  \<open>maxDist\<close> is positive all these values are finite, the index is inside a table of
  \<open>LUT_SIZE\<close> entries, and the scale is that entry unless the entry is 0.
\<close>

theorem scale_from_nearest_center:
  "nearest_dist pos fps ws =
     (if qualifying pos fps ws = [] then PosInf
      else Num (Min (set (qualifying pos fps ws)))) \<and>
   sphere_t cfg fps ws pos = js_min1 (js_div (nearest_dist pos fps ws) (maxDist cfg)) \<and>
   finalScale cfg fps ws pos =
     js_or (lut_read (lut cfg)
              (js_floor (js_times (sphere_t cfg fps ws pos) (real (LUT_SIZE - 1)))))
           (minScale cfg) \<and>
   (qualifying pos fps ws \<noteq> [] \<and> 0 < maxDist cfg \<longrightarrow>
      (let t = min 1 (Min (set (qualifying pos fps ws)) / maxDist cfg)
       in sphere_t cfg fps ws pos = Num t \<and>
          sphere_idx cfg fps ws pos = Num (of_int \<lfloor>t * real (LUT_SIZE - 1)\<rfloor>) \<and>
          (length (lut cfg) = LUT_SIZE \<and> lut cfg ! nat \<lfloor>t * real (LUT_SIZE - 1)\<rfloor> \<noteq> 0 \<longrightarrow>
             finalScale cfg fps ws pos = lut cfg ! nat \<lfloor>t * real (LUT_SIZE - 1)\<rfloor>)))"
proof (intro conjI impI)
  show "nearest_dist pos fps ws =
     (if qualifying pos fps ws = [] then PosInf
      else Num (Min (set (qualifying pos fps ws))))"
    by (rule nearest_dist_qualifying)
  show "sphere_t cfg fps ws pos = js_min1 (js_div (nearest_dist pos fps ws) (maxDist cfg))"
    by (simp add: sphere_t_def)
  show "finalScale cfg fps ws pos =
     js_or (lut_read (lut cfg)
              (js_floor (js_times (sphere_t cfg fps ws pos) (real (LUT_SIZE - 1)))))
           (minScale cfg)"
    by (simp add: finalScale_def sphere_idx_def)
next
  assume h: "qualifying pos fps ws \<noteq> [] \<and> 0 < maxDist cfg"
  define t where "t = min 1 (Min (set (qualifying pos fps ws)) / maxDist cfg)"
  from h have t: "sphere_t cfg fps ws pos = Num t"
    by (simp add: sphere_t_finite t_def)
  from h have t0: "0 \<le> t" "t \<le> 1"
    using sphere_t_unit [of pos fps ws cfg] by (simp_all add: t_def)
  have idx: "sphere_idx cfg fps ws pos = Num (of_int \<lfloor>t * 255\<rfloor>)"
    by (simp add: sphere_idx_def t LUT_SIZE_def)
  have "finalScale cfg fps ws pos = lut cfg ! nat \<lfloor>t * 255\<rfloor>"
    if "length (lut cfg) = LUT_SIZE" "lut cfg ! nat \<lfloor>t * 255\<rfloor> \<noteq> 0"
    using that lut_read_index [OF t0 that(1)] by (simp add: finalScale_def idx)
  with t idx show "let t = min 1 (Min (set (qualifying pos fps ws)) / maxDist cfg)
       in sphere_t cfg fps ws pos = Num t \<and>
          sphere_idx cfg fps ws pos = Num (of_int \<lfloor>t * real (LUT_SIZE - 1)\<rfloor>) \<and>
          (length (lut cfg) = LUT_SIZE \<and> lut cfg ! nat \<lfloor>t * real (LUT_SIZE - 1)\<rfloor> \<noteq> 0 \<longrightarrow>
             finalScale cfg fps ws pos = lut cfg ! nat \<lfloor>t * real (LUT_SIZE - 1)\<rfloor>)"
    by (simp add: Let_def t_def [symmetric] LUT_SIZE_def)
qed

lemma sqrt_25: "sqrt 25 = 5"
  by (rule real_sqrt_unique) simp_all

theorem scale_from_nearest_center_witness:
  "qualifying (0, 0, 0) [(5, 0, 0), (0, 0, 0)] [1 / 2, 0] = [10] \<and>
   0 < maxDist \<lparr>maxDist = 20, opacity = 1 / 2, lut = map (\<lambda>i. real i / 255) [0..<256],
                 minScale = 3 / 100, maxScale = 2, tintColor = (1, 0, 0),
                 tintColor2 = (0, 0, 1)\<rparr> \<and>
   sphere_t \<lparr>maxDist = 20, opacity = 1 / 2, lut = map (\<lambda>i. real i / 255) [0..<256],
             minScale = 3 / 100, maxScale = 2, tintColor = (1, 0, 0),
             tintColor2 = (0, 0, 1)\<rparr> [(5, 0, 0), (0, 0, 0)] [1 / 2, 0] (0, 0, 0) = Num (1 / 2) \<and>
   finalScale \<lparr>maxDist = 20, opacity = 1 / 2, lut = map (\<lambda>i. real i / 255) [0..<256],
               minScale = 3 / 100, maxScale = 2, tintColor = (1, 0, 0),
               tintColor2 = (0, 0, 1)\<rparr> [(5, 0, 0), (0, 0, 0)] [1 / 2, 0] (0, 0, 0) = 127 / 255"
proof -
  have q: "qualifying (0, 0, 0) [(5, 0, 0), (0, 0, 0)] [1 / 2, 0] = [10]"
    by (simp add: qualifying_def MAX_ENGINE_CENTERS_def weight_at_def sqrt_25 upt_rec)
  have f: "\<lfloor>(255::real) / 2\<rfloor> = 127"
    by linarith
  show ?thesis
    using scale_from_nearest_center
      [of "(0, 0, 0)" "[(5, 0, 0), (0, 0, 0)]" "[1 / 2, 0]"
          "\<lparr>maxDist = 20, opacity = 1 / 2, lut = map (\<lambda>i. real i / 255) [0..<256],
            minScale = 3 / 100, maxScale = 2, tintColor = (1, 0, 0),
            tintColor2 = (0, 0, 1)\<rparr>"]
    by (simp add: q f LUT_SIZE_def Let_def)
qed

lemma qualifying_empty:
  assumes "\<forall>c < min (length fps) MAX_ENGINE_CENTERS. weight_at ws c < 1 / 1000"
  shows "qualifying pos fps ws = []"
  using assms by (auto simp: qualifying_def filter_empty_conv)

lemma color_lerp_one: "color_lerp near far (Num 1) = num3 far"
  by (cases near; cases far) simp

lemma color_lerp_zero: "color_lerp near far (Num 0) = num3 near"
  by (cases near; cases far) simp

lemma App_maxDist_pos: "0 < App_maxDist"
  by (simp add: App_maxDist_def GRID_SIZE_def INITIAL_SPACING_def)

text \<open>
  Claim C3. If no center has a weight of at least 0.001 then, for a positive \<open>maxDist\<close>
  and for every grid element, \<open>t\<close> is 1, the index is \<open>LUT_SIZE - 1\<close>, the scale is the
  last entry of the table, or \<open>minScale\<close> when that entry is 0 or missing, and the colour is
  the far tint; a frame with at least one focal point writes these values for every
  element.
\<close>

theorem no_center_above_epsilon:
  assumes "\<forall>c < min (length fps) MAX_ENGINE_CENTERS. weight_at ws c < 1 / 1000"
    and "0 < maxDist cfg"
  shows "sphere_t cfg fps ws pos = Num 1 \<and>
         sphere_idx cfg fps ws pos = Num (real (LUT_SIZE - 1)) \<and>
         finalScale cfg fps ws pos =
           js_or (lut_read (lut cfg) (Num (real (LUT_SIZE - 1)))) (minScale cfg) \<and>
         (length (lut cfg) = LUT_SIZE \<longrightarrow>
            finalScale cfg fps ws pos =
              (if lut cfg ! (LUT_SIZE - 1) = 0 then minScale cfg else lut cfg ! (LUT_SIZE - 1))) \<and>
         sphere_color cfg fps ws pos = num3 (tintColor2 cfg) \<and>
         (fps \<noteq> [] \<longrightarrow>
            InstancedSpheres_useFrame cfg fps ws positions =
              Some (replicate (length positions)
                      (js_or (lut_read (lut cfg) (Num (real (LUT_SIZE - 1)))) (minScale cfg),
                       num3 (tintColor2 cfg))))"
proof -
  have t: "sphere_t cfg fps ws p = Num 1" for p
    using assms by (simp add: sphere_t_def nearest_dist_qualifying qualifying_empty)
  have idx: "sphere_idx cfg fps ws p = Num (real (LUT_SIZE - 1))" for p
    by (simp add: sphere_idx_def t)
  have sc: "finalScale cfg fps ws p =
              js_or (lut_read (lut cfg) (Num (real (LUT_SIZE - 1)))) (minScale cfg)" for p
    by (simp add: finalScale_def idx)
  have col: "sphere_color cfg fps ws p = num3 (tintColor2 cfg)" for p
    by (simp add: sphere_color_def t color_lerp_one)
  have full: "finalScale cfg fps ws pos =
      (if lut cfg ! (LUT_SIZE - 1) = 0 then minScale cfg else lut cfg ! (LUT_SIZE - 1))"
    if "length (lut cfg) = LUT_SIZE"
    using that by (simp add: sc LUT_SIZE_def)
  have frame: "InstancedSpheres_useFrame cfg fps ws positions =
      Some (replicate (length positions)
              (js_or (lut_read (lut cfg) (Num (real (LUT_SIZE - 1)))) (minScale cfg),
               num3 (tintColor2 cfg)))"
    if "fps \<noteq> []"
    using that by (simp add: InstancedSpheres_useFrame_def sc col map_replicate_const)
  from t idx sc col full frame show ?thesis
    by blast
qed

theorem no_center_above_epsilon_witness:
  "weight_at [0, 0, 0] 0 < 1 / 1000 \<and> weight_at [0, 0, 0] 1 < 1 / 1000 \<and>
   weight_at [0, 0, 0] 2 < 1 / 1000 \<and>
   0 < maxDist \<lparr>maxDist = App_maxDist, opacity = 1 / 2, lut = map (\<lambda>i. 1 - real i / 510) [0..<256],
                 minScale = 3 / 100, maxScale = 2, tintColor = (1, 0, 0),
                 tintColor2 = (0, 0, 1)\<rparr> \<and>
   sphere_t \<lparr>maxDist = App_maxDist, opacity = 1 / 2, lut = map (\<lambda>i. 1 - real i / 510) [0..<256],
             minScale = 3 / 100, maxScale = 2, tintColor = (1, 0, 0),
             tintColor2 = (0, 0, 1)\<rparr> [(1, 2, 3), (0, 0, 0), (4, 4, 4)] [0, 0, 0] (0, 0, 0) = Num 1 \<and>
   finalScale \<lparr>maxDist = App_maxDist, opacity = 1 / 2, lut = map (\<lambda>i. 1 - real i / 510) [0..<256],
               minScale = 3 / 100, maxScale = 2, tintColor = (1, 0, 0),
               tintColor2 = (0, 0, 1)\<rparr> [(1, 2, 3), (0, 0, 0), (4, 4, 4)] [0, 0, 0] (0, 0, 0) = 1 / 2 \<and>
   sphere_color \<lparr>maxDist = App_maxDist, opacity = 1 / 2, lut = map (\<lambda>i. 1 - real i / 510) [0..<256],
               minScale = 3 / 100, maxScale = 2, tintColor = (1, 0, 0),
               tintColor2 = (0, 0, 1)\<rparr> [(1, 2, 3), (0, 0, 0), (4, 4, 4)] [0, 0, 0] (0, 0, 0)
     = (Num 0, Num 0, Num 1)"
proof -
  have w: "\<forall>c < min (length [(1, 2, 3), (0, 0, 0), (4, 4, 4) :: vec3]) MAX_ENGINE_CENTERS.
             weight_at [0, 0, 0] c < 1 / 1000"
    by (auto simp: weight_at_def MAX_ENGINE_CENTERS_def less_Suc_eq)
  have m: "0 < maxDist \<lparr>maxDist = App_maxDist, opacity = 1 / 2,
                          lut = map (\<lambda>i. 1 - real i / 510) [0..<256],
                          minScale = 3 / 100, maxScale = 2, tintColor = (1, 0, 0),
                          tintColor2 = (0, 0, 1)\<rparr>"
    by (simp add: App_maxDist_pos)
  have w3: "weight_at [0, 0, 0] 0 < 1 / 1000 \<and> weight_at [0, 0, 0] 1 < 1 / 1000 \<and>
            weight_at [0, 0, 0] 2 < 1 / 1000"
    by (simp add: weight_at_def)
  from no_center_above_epsilon [OF w m, of "(0, 0, 0)" "[]"] w3 m show ?thesis
    by (simp add: LUT_SIZE_def)
qed

lemma sphere_idx_integral:
  "sphere_idx cfg fps ws pos = Num r \<Longrightarrow> r = of_int \<lfloor>r\<rfloor>"
  by (cases "js_times (sphere_t cfg fps ws pos) (real (LUT_SIZE - 1))")
     (auto simp: sphere_idx_def)

text \<open>
  Claim C8. Whenever the index computed from \<open>t\<close> is outside the table (negative, not
  below the length of the table, or not finite) or the entry at the index is 0, the scale
  of the element is \<open>minScale\<close>.
\<close>

theorem lut_fallback_to_minScale:
  "(case sphere_idx cfg fps ws pos of
      Num r \<Rightarrow> r < 0 \<or> real (length (lut cfg)) \<le> r \<or> lut cfg ! nat \<lfloor>r\<rfloor> = 0
    | PosInf \<Rightarrow> True | NegInf \<Rightarrow> True | NaN \<Rightarrow> True) \<Longrightarrow>
   finalScale cfg fps ws pos = minScale cfg"
  by (cases "sphere_idx cfg fps ws pos") (auto simp: finalScale_def)

lemma finalScale_in_range:
  assumes "sphere_idx cfg fps ws pos = Num r" "0 \<le> r" "r < real (length (lut cfg))"
    and "lut cfg ! nat \<lfloor>r\<rfloor> \<noteq> 0"
  shows "finalScale cfg fps ws pos = lut cfg ! nat \<lfloor>r\<rfloor>"
  using assms sphere_idx_integral [OF assms(1)] by (simp add: finalScale_def)

theorem lut_fallback_to_minScale_witness:
  "sphere_idx \<lparr>maxDist = 20, opacity = 1 / 2, lut = replicate 256 0,
               minScale = 3 / 100, maxScale = 2, tintColor = (1, 0, 0),
               tintColor2 = (0, 0, 1)\<rparr> [(5, 0, 0)] [1] (0, 0, 0) = Num 63 \<and>
   finalScale \<lparr>maxDist = 20, opacity = 1 / 2, lut = replicate 256 0,
               minScale = 3 / 100, maxScale = 2, tintColor = (1, 0, 0),
               tintColor2 = (0, 0, 1)\<rparr> [(5, 0, 0)] [1] (0, 0, 0) = 3 / 100 \<and>
   sphere_idx \<lparr>maxDist = - 20, opacity = 1 / 2, lut = replicate 256 1,
               minScale = 3 / 100, maxScale = 2, tintColor = (1, 0, 0),
               tintColor2 = (0, 0, 1)\<rparr> [(5, 0, 0)] [1] (0, 0, 0) = Num (- 64) \<and>
   finalScale \<lparr>maxDist = - 20, opacity = 1 / 2, lut = replicate 256 1,
               minScale = 3 / 100, maxScale = 2, tintColor = (1, 0, 0),
               tintColor2 = (0, 0, 1)\<rparr> [(5, 0, 0)] [1] (0, 0, 0) = 3 / 100"
proof -
  have q: "qualifying (0, 0, 0) [(5, 0, 0)] [1] = [5]"
    by (simp add: qualifying_def MAX_ENGINE_CENTERS_def weight_at_def sqrt_25)
  have f: "\<lfloor>(255::real) / 4\<rfloor> = 63" "\<lfloor>- ((255::real) / 4)\<rfloor> = - 64"
    by linarith+
  have i1: "sphere_idx \<lparr>maxDist = 20, opacity = 1 / 2, lut = replicate 256 0,
               minScale = 3 / 100, maxScale = 2, tintColor = (1, 0, 0),
               tintColor2 = (0, 0, 1)\<rparr> [(5, 0, 0)] [1] (0, 0, 0) = Num 63"
    by (simp add: sphere_idx_def sphere_t_def nearest_dist_qualifying q f LUT_SIZE_def)
  have i2: "sphere_idx \<lparr>maxDist = - 20, opacity = 1 / 2, lut = replicate 256 1,
               minScale = 3 / 100, maxScale = 2, tintColor = (1, 0, 0),
               tintColor2 = (0, 0, 1)\<rparr> [(5, 0, 0)] [1] (0, 0, 0) = Num (- 64)"
    by (simp add: sphere_idx_def sphere_t_def nearest_dist_qualifying q f LUT_SIZE_def)
  from lut_fallback_to_minScale
         [of "\<lparr>maxDist = 20, opacity = 1 / 2, lut = replicate 256 0,
               minScale = 3 / 100, maxScale = 2, tintColor = (1, 0, 0),
               tintColor2 = (0, 0, 1)\<rparr>" "[(5, 0, 0)]" "[1]" "(0, 0, 0)"]
       lut_fallback_to_minScale
         [of "\<lparr>maxDist = - 20, opacity = 1 / 2, lut = replicate 256 1,
               minScale = 3 / 100, maxScale = 2, tintColor = (1, 0, 0),
               tintColor2 = (0, 0, 1)\<rparr>" "[(5, 0, 0)]" "[1]" "(0, 0, 0)"]
       i1 i2
  show ?thesis
    by simp
qed

text \<open>
  Claim C2. The colour of an element is the linear interpolation of the near tint and the
  far tint by the \<open>t\<close> that also selects the scale, and neither \<open>t\<close> nor the colour
  depends on the table or on the scale bounds: at a finite \<open>t\<close> each component is
  \<open>(1 - t) * near + t * far\<close>, which is the near tint at \<open>t = 0\<close>, the far tint at
  \<open>t = 1\<close> and the midpoint of the two at \<open>t = 1/2\<close>.
\<close>

theorem color_is_linear_in_t:
  "sphere_color cfg fps ws pos =
     color_lerp (tintColor cfg) (tintColor2 cfg) (sphere_t cfg fps ws pos) \<and>
   sphere_t (cfg\<lparr>lut := l, minScale := a, maxScale := b\<rparr>) fps ws pos = sphere_t cfg fps ws pos \<and>
   sphere_color (cfg\<lparr>lut := l, minScale := a, maxScale := b\<rparr>) fps ws pos
     = sphere_color cfg fps ws pos \<and>
   color_lerp (r1, g1, b1) (r2, g2, b2) (Num t) =
     (Num ((1 - t) * r1 + t * r2), Num ((1 - t) * g1 + t * g2), Num ((1 - t) * b1 + t * b2)) \<and>
   color_lerp (r1, g1, b1) (r2, g2, b2) (Num 0) = (Num r1, Num g1, Num b1) \<and>
   color_lerp (r1, g1, b1) (r2, g2, b2) (Num 1) = (Num r2, Num g2, Num b2) \<and>
   color_lerp (r1, g1, b1) (r2, g2, b2) (Num (1 / 2)) =
     (Num ((r1 + r2) / 2), Num ((g1 + g2) / 2), Num ((b1 + b2) / 2))"
proof (intro conjI)
  show "color_lerp (r1, g1, b1) (r2, g2, b2) (Num t) =
     (Num ((1 - t) * r1 + t * r2), Num ((1 - t) * g1 + t * g2), Num ((1 - t) * b1 + t * b2))"
    by (simp add: algebra_simps)
  show "color_lerp (r1, g1, b1) (r2, g2, b2) (Num (1 / 2)) =
     (Num ((r1 + r2) / 2), Num ((g1 + g2) / 2), Num ((b1 + b2) / 2))"
    by (simp add: field_simps)
qed (simp_all add: sphere_color_def sphere_t_def)

lemma color_blend_scenario:
  "color_lerp (1, 0, 0) (0, 0, 1) (Num 0) = (Num 1, Num 0, Num 0) \<and>
   color_lerp (1, 0, 0) (0, 0, 1) (Num 1) = (Num 0, Num 0, Num 1) \<and>
   color_lerp (1, 0, 0) (0, 0, 1) (Num (1 / 2)) = (Num (1 / 2), Num 0, Num (1 / 2))"
  by simp

section \<open>Properties of the focal centers\<close>

lemma smooth_weight_alt:
  "smooth_weight delta w tgt = exp (- delta * 6) * w + (1 - exp (- delta * 6)) * tgt"
  by (simp add: smooth_weight_def lerp_def)

lemma exp_decay_unit: "0 \<le> delta \<Longrightarrow> 0 < exp (- delta * 6) \<and> exp (- delta * 6) \<le> (1::real)"
  by simp

lemma convex2:
  fixes e :: real
  assumes "0 \<le> e" "e \<le> 1" "lo \<le> x" "x \<le> hi" "lo \<le> y" "y \<le> hi"
  shows "lo \<le> e * x + (1 - e) * y \<and> e * x + (1 - e) * y \<le> hi"
proof -
  have "e * lo + (1 - e) * lo \<le> e * x + (1 - e) * y"
    using assms by (intro add_mono mult_left_mono) simp_all
  moreover have "e * x + (1 - e) * y \<le> e * hi + (1 - e) * hi"
    using assms by (intro add_mono mult_left_mono) simp_all
  moreover have "e * lo + (1 - e) * lo = lo" "e * hi + (1 - e) * hi = hi"
    by (simp_all add: algebra_simps)
  ultimately show ?thesis by simp
qed

lemma smooth_weight_range:
  assumes "0 \<le> delta" "0 \<le> w" "w \<le> 1" "0 \<le> tgt" "tgt \<le> 1"
  shows "0 \<le> smooth_weight delta w tgt \<and> smooth_weight delta w tgt \<le> 1"
  unfolding smooth_weight_alt
  using convex2 [of "exp (- delta * 6)" 0 w 1 tgt] assms by simp

lemma target_at_range:
  "\<forall>x \<in> set targets. 0 \<le> x \<and> x \<le> 1 \<Longrightarrow> 0 \<le> target_at targets i \<and> target_at targets i \<le> 1"
  by (simp add: target_at_def)

lemma smooth_weights_length [simp]: "length (smooth_weights delta targets ws) = length ws"
  by (simp add: smooth_weights_def)

lemma smooth_weights_nth:
  "i < length ws \<Longrightarrow>
     smooth_weights delta targets ws ! i = smooth_weight delta (ws ! i) (target_at targets i)"
  by (simp add: smooth_weights_def)

lemma run_weights_length [simp]: "length (run_weights ticks ws) = length ws"
  by (induction ticks ws rule: run_weights.induct) simp_all

lemma run_weights_range:
  assumes "\<forall>(delta, targets) \<in> set ticks. 0 \<le> delta \<and> (\<forall>x \<in> set targets. 0 \<le> x \<and> x \<le> 1)"
    and "\<forall>i < length ws. 0 \<le> ws ! i \<and> ws ! i \<le> 1"
  shows "\<forall>i < length ws. 0 \<le> run_weights ticks ws ! i \<and> run_weights ticks ws ! i \<le> 1"
  using assms
proof (induction ticks ws rule: run_weights.induct)
  case (1 ws)
  then show ?case by simp
next
  case (2 delta targets ticks ws)
  have step: "\<forall>i < length (smooth_weights delta targets ws).
                0 \<le> smooth_weights delta targets ws ! i \<and> smooth_weights delta targets ws ! i \<le> 1"
  proof (intro allI impI)
    fix i assume "i < length (smooth_weights delta targets ws)"
    then have i: "i < length ws" by simp
    from "2.prems"(1) have d: "0 \<le> delta" and tg: "\<forall>x \<in> set targets. 0 \<le> x \<and> x \<le> 1"
      by simp_all
    from smooth_weight_range [of delta "ws ! i" "target_at targets i"] d
      target_at_range [OF tg, of i] "2.prems"(2) i
    show "0 \<le> smooth_weights delta targets ws ! i \<and> smooth_weights delta targets ws ! i \<le> 1"
      by (simp add: smooth_weights_nth)
  qed
  from "2.prems"(1) have rest:
    "\<forall>(delta, targets) \<in> set ticks. 0 \<le> delta \<and> (\<forall>x \<in> set targets. 0 \<le> x \<and> x \<le> 1)"
    by simp
  from "2.IH" [OF rest step] show ?case
    by simp
qed

text \<open>
  While the target of a weight is 1, the distance of the weight from 1 decays by the
  factor \<open>exp (- 6 * delta)\<close> in each frame.
\<close>

lemma run_weights_decay:
  assumes "\<forall>(delta, targets) \<in> set ticks. target_at targets i = 1" and "i < length ws"
  shows "1 - run_weights ticks ws ! i = (1 - ws ! i) * exp (- 6 * sum_list (map fst ticks))"
  using assms
proof (induction ticks ws rule: run_weights.induct)
  case (1 ws)
  then show ?case by simp
next
  case (2 delta targets ticks ws)
  from "2.prems"(1) have tg: "target_at targets i = 1"
    and rest: "\<forall>(delta, targets) \<in> set ticks. target_at targets i = 1"
    by simp_all
  have "1 - smooth_weights delta targets ws ! i = (1 - ws ! i) * exp (- delta * 6)"
    using "2.prems"(2) by (simp add: smooth_weights_nth smooth_weight_alt tg algebra_simps)
  moreover from "2.IH" [OF rest] "2.prems"(2)
  have "1 - run_weights ticks (smooth_weights delta targets ws) ! i
          = (1 - smooth_weights delta targets ws ! i) * exp (- 6 * sum_list (map fst ticks))"
    by simp
  moreover have "exp (- delta * 6) * exp (- 6 * sum_list (map fst ticks))
                   = exp (- 6 * (delta + sum_list (map fst ticks)))"
    by (simp add: exp_add [symmetric] algebra_simps)
  ultimately show ?case
    by (simp add: mult.assoc)
qed

lemma exp_30_large: "1000 < exp (30::real)"
proof -
  have e: "11 \<le> exp (10::real)"
    using exp_ge_add_one_self [of "10::real"] by simp
  have "exp (30::real) = exp 10 * exp 10 * exp 10"
    by (simp add: exp_add [symmetric])
  moreover have "(11::real) * 11 * 11 \<le> exp 10 * exp 10 * exp 10"
    using e by (intro mult_mono) simp_all
  ultimately show ?thesis by simp
qed

lemma exp_decay_small:
  assumes "5 \<le> (T::real)"
  shows "exp (- 6 * T) < 1 / 1000"
proof -
  have "exp (- 6 * T) \<le> exp (- (30::real))"
    using assms by simp
  also have "\<dots> = 1 / exp 30"
    by (simp add: exp_minus inverse_eq_divide)
  also have "\<dots> < 1 / 1000"
    using exp_30_large by (simp add: field_simps)
  finally show ?thesis .
qed

text \<open>
  Claim C5. Over every run of frames whose lengths are not negative and whose targets lie
  in \<open>[0, 1]\<close>, weights that start in \<open>[0, 1]\<close> stay in \<open>[0, 1]\<close> after every frame; and a
  weight that starts at 0 and has the target 1 in every frame is within \<open>1e-3\<close> of 1 once
  the lengths of the frames add up to 5 or more (it is \<open>1 - exp (- 6 * T)\<close> after the
  time \<open>T\<close>).
\<close>

theorem weights_stay_in_unit_interval:
  assumes "\<forall>(delta, targets) \<in> set ticks. 0 \<le> delta \<and> (\<forall>x \<in> set targets. 0 \<le> x \<and> x \<le> 1)"
    and "\<forall>i < length ws. 0 \<le> ws ! i \<and> ws ! i \<le> 1"
  shows "(\<forall>n. \<forall>i < length ws.
            0 \<le> run_weights (take n ticks) ws ! i \<and> run_weights (take n ticks) ws ! i \<le> 1) \<and>
         (\<forall>i < length ws.
            ws ! i = 0 \<and> (\<forall>(delta, targets) \<in> set ticks. target_at targets i = 1) \<and>
            5 \<le> sum_list (map fst ticks) \<longrightarrow>
              \<bar>run_weights ticks ws ! i - 1\<bar> < 1 / 1000)"
proof (intro conjI allI impI)
  fix n i
  assume i: "i < length ws"
  have "\<forall>(delta, targets) \<in> set (take n ticks).
          0 \<le> delta \<and> (\<forall>x \<in> set targets. 0 \<le> x \<and> x \<le> 1)"
    using assms(1) by (auto dest: in_set_takeD)
  from run_weights_range [OF this assms(2)] i
  show "0 \<le> run_weights (take n ticks) ws ! i" "run_weights (take n ticks) ws ! i \<le> 1"
    by simp_all
next
  fix i
  assume i: "i < length ws"
    and h: "ws ! i = 0 \<and> (\<forall>(delta, targets) \<in> set ticks. target_at targets i = 1) \<and>
            5 \<le> sum_list (map fst ticks)"
  from run_weights_decay [of ticks i ws] h i
  have "1 - run_weights ticks ws ! i = exp (- 6 * sum_list (map fst ticks))"
    by simp
  moreover have "exp (- 6 * sum_list (map fst ticks)) < 1 / 1000"
    using h by (intro exp_decay_small) simp
  moreover have "0 < exp (- 6 * sum_list (map fst ticks))"
    by simp
  ultimately show "\<bar>run_weights ticks ws ! i - 1\<bar> < 1 / 1000"
    by linarith
qed

theorem weights_stay_in_unit_interval_witness:
  "0 \<le> run_weights [(2, [1, 0, 0]), (3, [1, 1, 0])] [0, 0, 0] ! 1 \<and>
   run_weights [(2, [1, 0, 0]), (3, [1, 1, 0])] [0, 0, 0] ! 1 \<le> 1 \<and>
   \<bar>run_weights [(2, [1, 0, 0]), (3, [1, 1, 0])] [0, 0, 0] ! 0 - 1\<bar> < 1 / 1000"
proof -
  have a: "\<forall>(delta, targets) \<in> set [(2, [1, 0, 0]), (3, [1, 1, 0 :: real])].
             (0::real) \<le> delta \<and> (\<forall>x \<in> set targets. 0 \<le> x \<and> x \<le> 1)"
    by simp
  have b: "\<forall>i < length [0, 0, 0 :: real]. 0 \<le> [0, 0, 0 :: real] ! i \<and> [0, 0, 0 :: real] ! i \<le> 1"
    by (auto simp: less_Suc_eq)
  have c: "\<forall>(delta, targets) \<in> set [(2 :: real, [1, 0, 0]), (3, [1, 1, 0])].
             target_at targets 0 = 1"
    by (simp add: target_at_def)
  note T = weights_stay_in_unit_interval [OF a b]
  have t2: "take 2 [(2 :: real, [1, 0, 0 :: real]), (3, [1, 1, 0])]
              = [(2, [1, 0, 0]), (3, [1, 1, 0])]"
    by simp
  have l: "1 < length [0, 0, 0 :: real]" "0 < length [0, 0, 0 :: real]"
    by simp_all
  have s: "5 \<le> sum_list (map fst [(2 :: real, [1, 0, 0 :: real]), (3, [1, 1, 0])])"
    by simp
  have z: "[0, 0, 0 :: real] ! 0 = 0"
    by simp
  from T [THEN conjunct1, rule_format, of 1 2, OF l(1)]
  have 1: "0 \<le> run_weights [(2, [1, 0, 0]), (3, [1, 1, 0])] [0, 0, 0] ! 1 \<and>
           run_weights [(2, [1, 0, 0]), (3, [1, 1, 0])] [0, 0, 0] ! 1 \<le> 1"
    unfolding t2 .
  from z c s have "[0, 0, 0 :: real] ! 0 = 0 \<and>
      (\<forall>(delta, targets) \<in> set [(2 :: real, [1, 0, 0]), (3, [1, 1, 0])].
         target_at targets 0 = 1) \<and>
      5 \<le> sum_list (map fst [(2 :: real, [1, 0, 0 :: real]), (3, [1, 1, 0])])"
    by (intro conjI)
  from T [THEN conjunct2, rule_format, of 0, OF l(2) this]
  have 2: "\<bar>run_weights [(2, [1, 0, 0]), (3, [1, 1, 0])] [0, 0, 0] ! 0 - 1\<bar> < 1 / 1000" .
  from 1 [THEN conjunct1] 1 [THEN conjunct2] 2 show ?thesis
    by (intro conjI)
qed

lemma abs_sin_times:
  fixes b a :: real
  assumes "0 \<le> b" "0 \<le> a"
  shows "\<bar>sin x * b * a\<bar> \<le> b * a" "\<bar>cos x * b * a\<bar> \<le> b * a"
proof -
  have "\<bar>sin x * b * a\<bar> = \<bar>sin x\<bar> * (b * a)"
    using assms by (simp add: abs_mult)
  also have "\<dots> \<le> 1 * (b * a)"
    using assms by (intro mult_right_mono) simp_all
  finally show "\<bar>sin x * b * a\<bar> \<le> b * a" by simp
  have "\<bar>cos x * b * a\<bar> = \<bar>cos x\<bar> * (b * a)"
    using assms by (simp add: abs_mult)
  also have "\<dots> \<le> 1 * (b * a)"
    using assms by (intro mult_right_mono) simp_all
  finally show "\<bar>cos x * b * a\<bar> \<le> b * a" by simp
qed

lemma lerp_one_range:
  assumes "0 \<le> r" "r \<le> 1" "lo \<le> 1" "1 \<le> hi" "lo \<le> a" "a \<le> hi"
  shows "lo \<le> lerp 1 a r \<and> lerp 1 a r \<le> hi"
  unfolding lerp_def
  using convex2 [of "1 - r" lo 1 hi a] assms by simp

lemma lerp_range:
  assumes "0 \<le> r" "r \<le> 1" "lo \<le> x" "x \<le> hi" "lo \<le> y" "y \<le> hi"
  shows "lo \<le> lerp x y r \<and> lerp x y r \<le> hi"
  unfolding lerp_def
  using convex2 [of "1 - r" lo x hi y] assms by simp

lemma center_position_components:
  "center_position i phase t bound randNorm =
     (sin (t * (2 / 10) * ((1 + real i * (1 / 10)) * lerp 1 (fst (freq phase)) randNorm)
           + px phase) * bound * lerp 1 (fst (amp phase)) randNorm,
      sin (t * (2 / 10) * ((135 / 100 + real i * (1 / 10))
           * lerp 1 (fst (snd (freq phase))) randNorm) + py phase)
        * bound * (85 / 100) * lerp 1 (fst (snd (amp phase))) randNorm,
      cos (t * (2 / 10) * ((8 / 10 + real i * (8 / 100))
           * lerp 1 (snd (snd (freq phase))) randNorm) + pz phase)
        * bound * lerp 1 (snd (snd (amp phase))) randNorm)"
  by (simp only: center_position_def Let_def)

text \<open>
  Claim C4, as amended. Each coordinate of a computed position is a sine or a cosine times
  \<open>bound\<close> times the amplitude factor of its axis, \<open>lerp 1 amp randNorm\<close> (and 0.85 on the
  \<open>y\<close> axis). For a randomness between 0 and 100 percent and amplitude jitters in
  \<open>[0.6, 1.4]\<close>, as they are drawn, every coordinate is at most \<open>bound\<close> times its
  amplitude factor in absolute value, hence at most \<open>1.4 * bound\<close>; it is at most
  \<open>bound\<close> when the randomness is 0 or the amplitude jitters of the center are at most 1.
\<close>

theorem center_position_bound:
  assumes "center_position i phase t bound randNorm = (x, y, z)"
    and "amp phase = (ax, ay, az)"
    and "0 \<le> bound" "0 \<le> randNorm" "randNorm \<le> 1"
    and "6 / 10 \<le> ax" "ax \<le> 14 / 10" "6 / 10 \<le> ay" "ay \<le> 14 / 10"
        "6 / 10 \<le> az" "az \<le> 14 / 10"
  shows "\<bar>x\<bar> \<le> bound * lerp 1 ax randNorm \<and>
         \<bar>y\<bar> \<le> bound * (85 / 100) * lerp 1 ay randNorm \<and>
         \<bar>z\<bar> \<le> bound * lerp 1 az randNorm \<and>
         \<bar>x\<bar> \<le> (14 / 10) * bound \<and> \<bar>y\<bar> \<le> (14 / 10) * bound \<and> \<bar>z\<bar> \<le> (14 / 10) * bound \<and>
         (randNorm = 0 \<or> (ax \<le> 1 \<and> ay \<le> 1 \<and> az \<le> 1) \<longrightarrow>
            \<bar>x\<bar> \<le> bound \<and> \<bar>y\<bar> \<le> bound \<and> \<bar>z\<bar> \<le> bound)"
proof -
  define jx where "jx = lerp 1 ax randNorm"
  define jy where "jy = lerp 1 ay randNorm"
  define jz where "jz = lerp 1 az randNorm"
  have j: "6 / 10 \<le> jx" "jx \<le> 14 / 10" "6 / 10 \<le> jy" "jy \<le> 14 / 10"
          "6 / 10 \<le> jz" "jz \<le> 14 / 10"
    using lerp_one_range [of randNorm "6 / 10" "14 / 10"] assms
    by (simp_all add: jx_def jy_def jz_def)
  have j1: "jx \<le> 1 \<and> jy \<le> 1 \<and> jz \<le> 1" if "randNorm = 0 \<or> (ax \<le> 1 \<and> ay \<le> 1 \<and> az \<le> 1)"
  proof (cases "randNorm = 0")
    case True
    then show ?thesis by (simp add: jx_def jy_def jz_def lerp_def)
  next
    case False
    with that have "ax \<le> 1 \<and> ay \<le> 1 \<and> az \<le> 1" by simp
    with lerp_one_range [of randNorm "6 / 10" 1] assms show ?thesis
      by (simp add: jx_def jy_def jz_def)
  qed
  from assms(1,2) have
    x: "x = sin (t * (2 / 10) * ((1 + real i * (1 / 10)) * lerp 1 (fst (freq phase)) randNorm)
                 + px phase) * bound * jx"
    and y: "y = sin (t * (2 / 10) * ((135 / 100 + real i * (1 / 10))
                 * lerp 1 (fst (snd (freq phase))) randNorm) + py phase)
                * bound * (85 / 100) * jy"
    and z: "z = cos (t * (2 / 10) * ((8 / 10 + real i * (8 / 100))
                 * lerp 1 (snd (snd (freq phase))) randNorm) + pz phase) * bound * jz"
    unfolding center_position_components jx_def jy_def jz_def
    by (simp_all only: prod.inject fst_conv snd_conv)
  have bx: "\<bar>x\<bar> \<le> bound * jx"
    unfolding x using assms(3) j by (intro abs_sin_times) simp_all
  have "\<bar>sin v * (bound * (85 / 100)) * jy\<bar> \<le> bound * (85 / 100) * jy" for v
    using assms(3) j by (intro abs_sin_times) simp_all
  then have "by": "\<bar>y\<bar> \<le> bound * (85 / 100) * jy"
    unfolding y by (simp only: mult.assoc)
  have bz: "\<bar>z\<bar> \<le> bound * jz"
    unfolding z using assms(3) j by (intro abs_sin_times) simp_all
  have m: "bound * c \<le> bound * d" if "c \<le> d" for c d :: real
    using that assms(3) by (rule mult_left_mono)
  have y85: "bound * (85 / 100) * jy \<le> bound * jy"
    using assms(3) j by (simp add: mult_left_mono mult_right_mono)
  have "\<bar>x\<bar> \<le> (14 / 10) * bound" "\<bar>y\<bar> \<le> (14 / 10) * bound" "\<bar>z\<bar> \<le> (14 / 10) * bound"
    using bx "by" bz y85 m [OF j(2)] m [OF j(4)] m [OF j(6)] by linarith+
  moreover have "\<bar>x\<bar> \<le> bound \<and> \<bar>y\<bar> \<le> bound \<and> \<bar>z\<bar> \<le> bound"
    if "randNorm = 0 \<or> (ax \<le> 1 \<and> ay \<le> 1 \<and> az \<le> 1)"
  proof -
    from j1 [OF that] have "jx \<le> 1" "jy \<le> 1" "jz \<le> 1" by simp_all
    from m [OF this(1)] m [OF this(2)] m [OF this(3)] bx "by" bz y85 show ?thesis
      by simp
  qed
  ultimately show ?thesis
    using bx "by" bz by (simp add: jx_def jy_def jz_def)
qed

theorem center_position_bound_witness:
  "amp \<lparr>px = 0, py = 0, pz = 0, amp = (12 / 10, 1, 1), freq = (1, 1, 1)\<rparr> = (12 / 10, 1, 1) \<and>
   (0::real) \<le> GRID_SIZE * INITIAL_SPACING / 2 * 1 \<and>
   \<bar>fst (center_position 0 \<lparr>px = 0, py = 0, pz = 0, amp = (12 / 10, 1, 1), freq = (1, 1, 1)\<rparr>
           (pi / 2 * 5) (GRID_SIZE * INITIAL_SPACING / 2 * 1) 1)\<bar>
     \<le> (14 / 10) * (GRID_SIZE * INITIAL_SPACING / 2 * 1) \<and>
   \<bar>snd (snd (center_position 0 \<lparr>px = 0, py = 0, pz = 0, amp = (12 / 10, 1, 1), freq = (1, 1, 1)\<rparr>
           (pi / 2 * 5) (GRID_SIZE * INITIAL_SPACING / 2 * 1) 0))\<bar>
     \<le> GRID_SIZE * INITIAL_SPACING / 2 * 1"
proof -
  have b: "(0::real) \<le> GRID_SIZE * INITIAL_SPACING / 2 * 1"
    by (simp add: GRID_SIZE_def INITIAL_SPACING_def)
  have a: "amp \<lparr>px = 0, py = 0, pz = 0, amp = (12 / 10, 1, 1), freq = (1, 1, 1)\<rparr> = (12 / 10, 1, 1)"
    by simp
  obtain x y z where p: "center_position 0
      \<lparr>px = 0, py = 0, pz = 0, amp = (12 / 10, 1, 1), freq = (1, 1, 1)\<rparr>
      (pi / 2 * 5) (GRID_SIZE * INITIAL_SPACING / 2 * 1) 1 = (x, y, z)"
    by (rule prod_cases3)
  obtain x' y' z' where p': "center_position 0
      \<lparr>px = 0, py = 0, pz = 0, amp = (12 / 10, 1, 1), freq = (1, 1, 1)\<rparr>
      (pi / 2 * 5) (GRID_SIZE * INITIAL_SPACING / 2 * 1) 0 = (x', y', z')"
    by (rule prod_cases3)
  from center_position_bound [OF p a b] have "\<bar>x\<bar> \<le> (14 / 10) * (GRID_SIZE * INITIAL_SPACING / 2 * 1)"
    by simp
  moreover from center_position_bound [OF p' a b] have "\<bar>z'\<bar> \<le> GRID_SIZE * INITIAL_SPACING / 2 * 1"
    by simp
  ultimately show ?thesis
    using a b by (simp only: p p' fst_conv snd_conv simp_thms)
qed

text \<open>
  The claim as it was stated fails: with the bounds scale 1 (\<open>bound = 7.2\<close>), the
  randomness 100, and a center whose amplitude jitter on \<open>x\<close> is 1.2 and whose phase on
  \<open>x\<close> is \<open>pi / 2\<close>, the \<open>x\<close> coordinate at time 0 is \<open>8.64\<close>.
\<close>

theorem center_position_exceeds_bound:
  "\<not> \<bar>fst (center_position 0
              \<lparr>px = pi / 2, py = 0, pz = 0, amp = (12 / 10, 1, 1), freq = (1, 1, 1)\<rparr>
              0 (GRID_SIZE * INITIAL_SPACING / 2 * 1) (100 / 100))\<bar>
       \<le> GRID_SIZE * INITIAL_SPACING / 2 * 1"
  by (simp add: center_position_def Let_def lerp_def GRID_SIZE_def INITIAL_SPACING_def)

lemma put_center_length: "k \<le> length points \<Longrightarrow> Suc k \<le> length (put_center points k p)"
  by (auto simp: put_center_def)

lemma put_center_nth_same: "k \<le> length points \<Longrightarrow> put_center points k p ! k = p"
  by (auto simp: put_center_def nth_append)

lemma put_center_nth_other: "i < k \<Longrightarrow> k \<le> length points \<Longrightarrow> put_center points k p ! i = points ! i"
  by (auto simp: put_center_def nth_append)

text \<open>
  The loop over the active centers writes the computed position of every center it
  visits and leaves the focal points before them as they were.
\<close>

lemma move_centers_nth:
  "move_centers [k..<n] phases t b r points = Inr points' \<Longrightarrow> k \<le> length points \<Longrightarrow>
     (\<forall>i. k \<le> i \<and> i < n \<longrightarrow> points' ! i = center_position i (phases ! i) t b r) \<and>
     (\<forall>i < k. points' ! i = points ! i)"
proof (induction "n - k" arbitrary: k points)
  case 0
  then show ?case by auto
next
  case (Suc m)
  then have kn: "k < n" by simp
  define p where "p = center_position k (phases ! k) t b r"
  from Suc.prems(1) kn have ph: "k < length phases"
    and rest: "move_centers [Suc k..<n] phases t b r (put_center points k p) = Inr points'"
    by (auto simp: upt_conv_Cons p_def split: if_splits)
  from Suc.hyps(2) have m: "m = n - Suc k" by simp
  from Suc.hyps(1) [OF m rest put_center_length [OF Suc.prems(2)]]
  have a: "\<forall>i. Suc k \<le> i \<and> i < n \<longrightarrow> points' ! i = center_position i (phases ! i) t b r"
    and b: "\<forall>i < Suc k. points' ! i = put_center points k p ! i"
    by simp_all
  from b have "points' ! k = p"
    by (simp add: put_center_nth_same [OF Suc.prems(2)])
  moreover from b have "\<forall>i < k. points' ! i = points ! i"
    by (simp add: put_center_nth_other [OF _ Suc.prems(2)])
  moreover have "points' ! i = center_position i (phases ! i) t b r"
    if "k \<le> i" "i < n" "points' ! k = p" for i
  proof (cases "i = k")
    case True
    with that show ?thesis by (simp add: p_def)
  next
    case False
    with that have "Suc k \<le> i" by simp
    with a that show ?thesis by blast
  qed
  ultimately show ?case
    by blast
qed

text \<open>What a frame of the animation writes.\<close>

lemma SceneContent_useFrame_writes:
  assumes "isDynamic props" and "SceneContent_useFrame props delta s = Inr s'"
  shows "timeRef s' = timeRef s + delta * speed props"
    and "weightRef s' = smooth_weights delta (weightTargetRef s) (weightRef s)"
    and "smoothRandomnessRef s' =
           lerp (smoothRandomnessRef s) (engineRandomness props) (1 - exp (- delta * 3))"
    and "\<forall>i < min (engineCenters props) MAX_ENGINE_CENTERS.
           focalPointsRef s' ! i =
             center_position i (phaseRef s ! i) (timeRef s')
               (GRID_SIZE * INITIAL_SPACING / 2 * boundScale props)
               (smoothRandomnessRef s' / 100)"
proof -
  define time' where "time' = timeRef s + delta * speed props"
  define smooth' where
    "smooth' = lerp (smoothRandomnessRef s) (engineRandomness props) (1 - exp (- delta * 3))"
  define bound where "bound = GRID_SIZE * INITIAL_SPACING / 2 * boundScale props"
  define n where "n = min (engineCenters props) MAX_ENGINE_CENTERS"
  from assms obtain points' where
    mv: "move_centers [0..<n] (phaseRef s) time' bound (smooth' / 100) (focalPointsRef s)
           = Inr points'"
    and s': "s' = s\<lparr>timeRef := time',
                      weightRef := smooth_weights delta (weightTargetRef s) (weightRef s),
                      smoothRandomnessRef := smooth', focalPointsRef := points'\<rparr>"
    by (auto simp: SceneContent_useFrame_def Let_def time'_def smooth'_def bound_def n_def
          split: sum.splits)
  from move_centers_nth [OF mv]
  have "\<forall>i < n. points' ! i = center_position i (phaseRef s ! i) time' bound (smooth' / 100)"
    by simp
  then show "\<forall>i < min (engineCenters props) MAX_ENGINE_CENTERS.
           focalPointsRef s' ! i =
             center_position i (phaseRef s ! i) (timeRef s')
               (GRID_SIZE * INITIAL_SPACING / 2 * boundScale props)
               (smoothRandomnessRef s' / 100)"
    by (simp add: s' n_def bound_def)
  show "timeRef s' = timeRef s + delta * speed props"
    by (simp add: s' time'_def)
  show "weightRef s' = smooth_weights delta (weightTargetRef s) (weightRef s)"
    by (simp add: s')
  show "smoothRandomnessRef s' =
           lerp (smoothRandomnessRef s) (engineRandomness props) (1 - exp (- delta * 3))"
    by (simp add: s' smooth'_def)
qed

text \<open>The smoothed randomness stays a percentage.\<close>

lemma smooth_randomness_range:
  assumes "0 \<le> delta" "0 \<le> r" "r \<le> 100" "0 \<le> e" "e \<le> 100"
  shows "0 \<le> lerp r e (1 - exp (- delta * 3)) / 100 \<and> lerp r e (1 - exp (- delta * 3)) / 100 \<le> 1"
  using lerp_range [of "1 - exp (- delta * 3)" 0 r 100 e] assms by simp

lemma weight_targets_unit: "\<forall>x \<in> set (weight_targets n). 0 \<le> x \<and> x \<le> 1"
  by (auto simp: weight_targets_def)

section \<open>Properties of the variants with one focal point\<close>

lemma Sphere_finalScale_const_fallback:
  "lut_read l (js_floor (js_times (Sphere_t maxD focalPoint spherePos) (real (LUT_SIZE - 1))))
     \<in> {None, Some 0} \<Longrightarrow>
   Sphere_finalScale_const maxD l focalPoint spherePos = 1 / 10"
  by (auto simp: Sphere_finalScale_const_def)

lemma Sphere_color_uniform: "Sphere_color tint = num3 tint"
  by (cases tint) (simp add: Sphere_color_def)

end
